theory Spec2Isabelle
  imports Complex_Main
begin

section \<open>The indicator engine of the trading terminal\<close>

text \<open>
  A shallow embedding of \<^verbatim>\<open>lib/indicators.ts\<close>: the pure functions that turn a
  sequence of OHLCV candles into indicator series.

  Conventions of the model.
  \<^item> A TypeScript \<^verbatim>\<open>number\<close> that holds a price, a volume or a derived value is a
    \<^typ>\<open>real\<close>, and the arithmetic of the functions is exact. Where a property
    compares two results that the source rounds separately (the seed of the EMA with
    the SMA, the two Bollinger bands), the functions are given a second time with a
    rounding function applied to the result of every operation, and the property is
    stated for them. A timestamp is an \<^typ>\<open>int\<close>, a period or a level count is a
    \<^typ>\<open>nat\<close>.
  \<^item> A \<^verbatim>\<open>for\<close> loop over an index range is a recursion over the list of its indices,
    with the loop's mutable variables as arguments; \<^verbatim>\<open>result.push\<close> is list construction.
  \<^item> Reading a field of \<^verbatim>\<open>candles[-1]\<close> (\<^verbatim>\<open>undefined\<close>) throws a TypeError in
    JavaScript: the functions that do so for period 0 return \<open>Inl TypeError\<close>.
  \<^item> JavaScript divides by zero without raising, and the result (an infinity or NaN)
    has no counterpart in \<^typ>\<open>real\<close>. The one function that returns such values
    (the RSI with period 0, which computes \<^verbatim>\<open>0/0\<close>) returns \<open>Inl NotANumber\<close>.
    Every other divisor that the source reads is a positive period or level count, or
    is tested by the source before the division, or is \<open>1 + rs\<close> in the RSI, with
    \<open>rs\<close> a quotient of averages of non-negative numbers.
  \<^item> \<^verbatim>\<open>Math.sqrt\<close> is \<^const>\<open>sqrt\<close>. Its arguments are non-negative when the volumes
    are (the data model has \<^verbatim>\<open>volume\<close> non-negative); the theorem on the deviation
    of the VWAP assumes so.
  \<^item> \<^verbatim>\<open>Math.random()\<close> reads a stream of draws that is a parameter of the model.
\<close>

subsection \<open>Data model\<close>

record CandleData =
  time :: int
  "open" :: real
  high :: real
  low :: real
  close :: real
  volume :: real

record IndicatorData =
  time :: int
  "value" :: real

datatype js_error = TypeError | NotANumber

subsection \<open>Simple moving average\<close>

text \<open>The inner loop: \<^verbatim>\<open>for (j = 0; j < period; j++) sum += candles[i - j].close\<close>.\<close>

definition window_sum :: "CandleData list \<Rightarrow> nat \<Rightarrow> nat \<Rightarrow> real" where
  "window_sum candles period i =
     fold (\<lambda>j sum. sum + close (candles ! (i - j))) [0..<period] 0"

definition calculateSMA :: "CandleData list \<Rightarrow> nat \<Rightarrow> js_error + IndicatorData list" where
  "calculateSMA candles period =
     (if length candles < period then Inr []
      else if period = 0 then Inl TypeError
      else Inr (map (\<lambda>i. \<lparr>IndicatorData.time = CandleData.time (candles ! i),
                             value = window_sum candles period i / real period\<rparr>)
                    [period - 1..<length candles]))"

subsection \<open>Exponential moving average\<close>

text \<open>The seed loop: \<^verbatim>\<open>for (i = 0; i < period; i++) sum += candles[i].close\<close>.\<close>

definition seed_sum :: "CandleData list \<Rightarrow> nat \<Rightarrow> real" where
  "seed_sum candles period = fold (\<lambda>i sum. sum + close (candles ! i)) [0..<period] 0"

text \<open>The recurrence loop over the indices \<open>period, \<dots>, length candles - 1\<close>,
  carrying \<^verbatim>\<open>ema\<close>.\<close>

fun ema_loop :: "CandleData list \<Rightarrow> real \<Rightarrow> real \<Rightarrow> nat list \<Rightarrow> IndicatorData list" where
  "ema_loop candles multiplier ema [] = []"
| "ema_loop candles multiplier ema (i # is) =
     (let ema' = (close (candles ! i) - ema) * multiplier + ema
      in \<lparr>IndicatorData.time = CandleData.time (candles ! i), value = ema'\<rparr>
           # ema_loop candles multiplier ema' is)"

definition calculateEMA :: "CandleData list \<Rightarrow> nat \<Rightarrow> js_error + IndicatorData list" where
  "calculateEMA candles period =
     (if length candles < period then Inr []
      else if period = 0 then Inl TypeError
      else
        let multiplier = 2 / (real period + 1);
            ema = seed_sum candles period / real period
        in Inr (\<lparr>IndicatorData.time = CandleData.time (candles ! (period - 1)), value = ema\<rparr>
                  # ema_loop candles multiplier ema [period..<length candles]))"

subsection \<open>Relative strength index\<close>

text \<open>The arrays \<^verbatim>\<open>gains\<close> and \<^verbatim>\<open>losses\<close>, one entry per index \<open>1, \<dots>, length - 1\<close>.\<close>

definition price_gains :: "CandleData list \<Rightarrow> real list" where
  "price_gains candles =
     map (\<lambda>i. let change = close (candles ! i) - close (candles ! (i - 1))
              in if change > 0 then change else 0)
         [1..<length candles]"

definition price_losses :: "CandleData list \<Rightarrow> real list" where
  "price_losses candles =
     map (\<lambda>i. let change = close (candles ! i) - close (candles ! (i - 1))
              in if change < 0 then \<bar>change\<bar> else 0)
         [1..<length candles]"

text \<open>\<^verbatim>\<open>rs = avgLoss === 0 ? 100 : avgGain / avgLoss; rsi = 100 - (100 / (1 + rs))\<close>\<close>

definition rsi_value :: "real \<Rightarrow> real \<Rightarrow> real" where
  "rsi_value avgGain avgLoss =
     (let rs = (if avgLoss = 0 then 100 else avgGain / avgLoss)
      in 100 - (100 / (1 + rs)))"

fun rsi_loop :: "CandleData list \<Rightarrow> real list \<Rightarrow> real list \<Rightarrow> nat \<Rightarrow> real \<Rightarrow> real
                 \<Rightarrow> nat list \<Rightarrow> IndicatorData list" where
  "rsi_loop candles gains losses period avgGain avgLoss [] = []"
| "rsi_loop candles gains losses period avgGain avgLoss (i # is) =
     (let avgGain' = (avgGain * (real period - 1) + gains ! i) / real period;
          avgLoss' = (avgLoss * (real period - 1) + losses ! i) / real period
      in \<lparr>IndicatorData.time = CandleData.time (candles ! (i + 1)),
           value = rsi_value avgGain' avgLoss'\<rparr>
           # rsi_loop candles gains losses period avgGain' avgLoss' is)"

definition calculateRSI :: "CandleData list \<Rightarrow> nat \<Rightarrow> js_error + IndicatorData list" where
  "calculateRSI candles period =
     (if length candles < period + 1 then Inr []
      else if period = 0 then Inl NotANumber
      else
        let gains = price_gains candles;
            losses = price_losses candles;
            avgGain = foldl (+) 0 (take period gains) / real period;
            avgLoss = foldl (+) 0 (take period losses) / real period
        in Inr (\<lparr>IndicatorData.time = CandleData.time (candles ! period),
                  value = rsi_value avgGain avgLoss\<rparr>
                  # rsi_loop candles gains losses period avgGain avgLoss
                      [period..<length gains]))"

subsection \<open>MACD\<close>

record MACDData =
  time :: int
  macd :: real
  signal :: real
  histogram :: real

text \<open>The MACD line: the slow series, each point paired with the fast point
  \<open>slowStartIndex\<close> positions later, when that index is in range.\<close>

definition macd_line :: "IndicatorData list \<Rightarrow> IndicatorData list \<Rightarrow> int \<Rightarrow> IndicatorData list" where
  "macd_line fastEMA slowEMA slowStartIndex =
     concat (map (\<lambda>i. let fastIndex = int i + slowStartIndex
                      in if fastIndex \<ge> 0 \<and> fastIndex < int (length fastEMA)
                         then [\<lparr>IndicatorData.time = IndicatorData.time (slowEMA ! i),
                                 value = value (fastEMA ! nat fastIndex) - value (slowEMA ! i)\<rparr>]
                         else [])
                 [0..<length slowEMA])"

fun signal_loop :: "IndicatorData list \<Rightarrow> real \<Rightarrow> real \<Rightarrow> nat list \<Rightarrow> MACDData list" where
  "signal_loop macdLine multiplier sig [] = []"
| "signal_loop macdLine multiplier sig (i # is) =
     (let sig' = (value (macdLine ! i) - sig) * multiplier + sig
      in \<lparr>MACDData.time = IndicatorData.time (macdLine ! i),
           macd = value (macdLine ! i),
           signal = sig',
           histogram = value (macdLine ! i) - sig'\<rparr>
           # signal_loop macdLine multiplier sig' is)"

definition calculateMACD :: "CandleData list \<Rightarrow> nat \<Rightarrow> nat \<Rightarrow> nat \<Rightarrow> js_error + MACDData list" where
  "calculateMACD candles fastPeriod slowPeriod signalPeriod =
     (if length candles < slowPeriod + signalPeriod then Inr []
      else case calculateEMA candles fastPeriod of
        Inl e \<Rightarrow> Inl e
      | Inr fastEMA \<Rightarrow>
         (case calculateEMA candles slowPeriod of
            Inl e \<Rightarrow> Inl e
          | Inr slowEMA \<Rightarrow>
             (let macdLine = macd_line fastEMA slowEMA (int slowPeriod - int fastPeriod)
              in if length macdLine < signalPeriod then Inr []
                 else if signalPeriod = 0 then Inl TypeError
                 else
                   let multiplier = 2 / (real signalPeriod + 1);
                       signalSum = fold (\<lambda>i s. s + value (macdLine ! i)) [0..<signalPeriod] 0;
                       sig = signalSum / real signalPeriod
                   in Inr (\<lparr>MACDData.time = IndicatorData.time (macdLine ! (signalPeriod - 1)),
                             macd = value (macdLine ! (signalPeriod - 1)),
                             signal = sig,
                             histogram = value (macdLine ! (signalPeriod - 1)) - sig\<rparr>
                             # signal_loop macdLine multiplier sig
                                 [signalPeriod..<length macdLine]))))"

subsection \<open>VWAP with deviation bands\<close>

record VWAPData =
  time :: int
  vwap :: real
  upperBand1 :: real
  lowerBand1 :: real
  upperBand2 :: real
  lowerBand2 :: real

definition typicalPrice :: "CandleData \<Rightarrow> real" where
  "typicalPrice candle = (high candle + low candle + close candle) / 3"

text \<open>The loop body's \<^verbatim>\<open>vwap\<close> and \<^verbatim>\<open>stdDev\<close>, as functions of the updated
  accumulators.\<close>

definition vwap_of :: "real \<Rightarrow> real \<Rightarrow> real \<Rightarrow> real" where
  "vwap_of cumulativeTPV cumulativeVolume tp =
     (if cumulativeVolume > 0 then cumulativeTPV / cumulativeVolume else tp)"

definition stdDev_of :: "real list \<Rightarrow> real \<Rightarrow> real" where
  "stdDev_of squaredDeviations cumulativeVolume =
     (let sumSquaredDev = foldl (+) 0 squaredDeviations;
          variance = (if cumulativeVolume > 0 then sumSquaredDev / cumulativeVolume else 0)
      in sqrt variance)"

fun vwap_loop :: "real \<Rightarrow> real \<Rightarrow> real list \<Rightarrow> CandleData list \<Rightarrow> VWAPData list" where
  "vwap_loop cumulativeTPV cumulativeVolume squaredDeviations [] = []"
| "vwap_loop cumulativeTPV cumulativeVolume squaredDeviations (candle # rest) =
     (let tp = typicalPrice candle;
          tpv = tp * volume candle;
          cumulativeTPV' = cumulativeTPV + tpv;
          cumulativeVolume' = cumulativeVolume + volume candle;
          v = vwap_of cumulativeTPV' cumulativeVolume' tp;
          squaredDeviations' = squaredDeviations @ [(tp - v)\<^sup>2 * volume candle];
          stdDev = stdDev_of squaredDeviations' cumulativeVolume'
      in \<lparr>VWAPData.time = CandleData.time candle,
           vwap = v,
           upperBand1 = v + stdDev,
           lowerBand1 = v - stdDev,
           upperBand2 = v + 2 * stdDev,
           lowerBand2 = v - 2 * stdDev\<rparr>
           # vwap_loop cumulativeTPV' cumulativeVolume' squaredDeviations' rest)"

definition calculateVWAP :: "CandleData list \<Rightarrow> VWAPData list" where
  "calculateVWAP candles = (if length candles = 0 then [] else vwap_loop 0 0 [] candles)"

subsection \<open>Cumulative volume delta\<close>

record CVDData =
  time :: int
  cvd :: real
  delta :: real

definition closePosition :: "CandleData \<Rightarrow> real" where
  "closePosition candle =
     (let hl = high candle - low candle
      in if hl > 0 then (close candle - low candle) / hl else 0.5)"

definition buyVolume :: "CandleData \<Rightarrow> real" where
  "buyVolume candle = volume candle * closePosition candle"

definition sellVolume :: "CandleData \<Rightarrow> real" where
  "sellVolume candle = volume candle * (1 - closePosition candle)"

text \<open>The loop body; its locals \<^verbatim>\<open>body\<close> and \<^verbatim>\<open>isBullish\<close> are never read.\<close>

fun cvd_loop :: "real \<Rightarrow> CandleData list \<Rightarrow> CVDData list" where
  "cvd_loop cumulativeDelta [] = []"
| "cvd_loop cumulativeDelta (candle # rest) =
     (let d = buyVolume candle - sellVolume candle;
          cumulativeDelta' = cumulativeDelta + d
      in \<lparr>CVDData.time = CandleData.time candle, cvd = cumulativeDelta', delta = d\<rparr>
           # cvd_loop cumulativeDelta' rest)"

definition calculateCVD :: "CandleData list \<Rightarrow> CVDData list" where
  "calculateCVD candles = (if length candles = 0 then [] else cvd_loop 0 candles)"

subsection \<open>Bollinger bands\<close>

record BollingerBandData =
  time :: int
  upper :: real
  middle :: real
  lower :: real

text \<open>\<^verbatim>\<open>for (j = 0; j < period; j++) squaredDiffSum += Math.pow(candles[i - j].close - sma, 2)\<close>\<close>

definition squared_diff_sum :: "CandleData list \<Rightarrow> nat \<Rightarrow> nat \<Rightarrow> real \<Rightarrow> real" where
  "squared_diff_sum candles period i sma =
     fold (\<lambda>j s. s + (close (candles ! (i - j)) - sma)\<^sup>2) [0..<period] 0"

definition calculateBollingerBands ::
  "CandleData list \<Rightarrow> nat \<Rightarrow> real \<Rightarrow> js_error + BollingerBandData list" where
  "calculateBollingerBands candles period stdDev =
     (if length candles < period then Inr []
      else if period = 0 then Inl TypeError
      else Inr (map (\<lambda>i. let sma = window_sum candles period i / real period;
                             std = sqrt (squared_diff_sum candles period i sma / real period)
                         in \<lparr>BollingerBandData.time = CandleData.time (candles ! i),
                              upper = sma + stdDev * std,
                              middle = sma,
                              lower = sma - stdDev * std\<rparr>)
                    [period - 1..<length candles]))"

subsection \<open>Footprint\<close>

datatype imbalance = Bid | Ask | Neutral

record FootprintLevel =
  price :: real
  bidVolume :: real
  askVolume :: real
  delta :: real
  imbalance :: imbalance

record FootprintCandle =
  time :: int
  levels :: "FootprintLevel list"
  totalBidVolume :: real
  totalAskVolume :: real
  totalDelta :: real
  pocPrice :: real

text \<open>The constants of the body of the level loop, for level \<open>i\<close> of a candle
  (\<^verbatim>\<open>distanceFromCenter\<close> is never read).\<close>

definition levelPrice :: "CandleData \<Rightarrow> nat \<Rightarrow> nat \<Rightarrow> real" where
  "levelPrice candle levelsPerCandle i =
     (let priceStep = (high candle - low candle) / real levelsPerCandle
      in low candle + (real i + 0.5) * priceStep)"

definition levelVolume :: "CandleData \<Rightarrow> nat \<Rightarrow> nat \<Rightarrow> real" where
  "levelVolume candle levelsPerCandle i =
     (let bodyTop = max (open candle) (close candle);
          bodyBottom = min (open candle) (close candle);
          lp = levelPrice candle levelsPerCandle i;
          isInBody = (lp \<ge> bodyBottom \<and> lp \<le> bodyTop);
          lv = volume candle / real levelsPerCandle
      in if isInBody then lv * 1.5 else lv * 0.5)"

definition positionFactor :: "CandleData \<Rightarrow> nat \<Rightarrow> nat \<Rightarrow> real" where
  "positionFactor candle levelsPerCandle i =
     (levelPrice candle levelsPerCandle i - low candle) / (high candle - low candle)"

definition bidRatio :: "CandleData \<Rightarrow> nat \<Rightarrow> nat \<Rightarrow> real" where
  "bidRatio candle levelsPerCandle i =
     (if close candle \<ge> open candle
      then 0.35 + positionFactor candle levelsPerCandle i * 0.15
      else 0.65 - positionFactor candle levelsPerCandle i * 0.15)"

definition askRatio :: "CandleData \<Rightarrow> nat \<Rightarrow> nat \<Rightarrow> real" where
  "askRatio candle levelsPerCandle i =
     (if close candle \<ge> open candle
      then 0.65 - positionFactor candle levelsPerCandle i * 0.15
      else 0.35 + positionFactor candle levelsPerCandle i * 0.15)"

definition classify :: "real \<Rightarrow> real \<Rightarrow> imbalance" where
  "classify bid ask = (if ask > bid * 3 then Ask else if bid > ask * 3 then Bid else Neutral)"

text \<open>One level, given the value \<open>r\<close> that \<^verbatim>\<open>Math.random()\<close> returns for it.
  The source draws once per level and uses the one \<^verbatim>\<open>noise\<close> for both volumes.\<close>

definition footprint_level :: "CandleData \<Rightarrow> nat \<Rightarrow> nat \<Rightarrow> real \<Rightarrow> FootprintLevel" where
  "footprint_level candle levelsPerCandle i r =
     (let noise = 0.9 + r * 0.2;
          bid = levelVolume candle levelsPerCandle i * bidRatio candle levelsPerCandle i * noise;
          ask = levelVolume candle levelsPerCandle i * askRatio candle levelsPerCandle i * noise
      in \<lparr>price = levelPrice candle levelsPerCandle i,
           bidVolume = bid,
           askVolume = ask,
           delta = ask - bid,
           imbalance = classify bid ask\<rparr>)"

text \<open>
  The random source is a stream of draws \<open>rnd 0, rnd 1, \<dots>\<close> and a counter \<open>k\<close> of the
  draws made so far: \<^verbatim>\<open>Math.random()\<close> returns \<open>rnd k\<close> and the counter becomes
  \<open>k + 1\<close>. The level loop carries \<^verbatim>\<open>levels\<close>, \<^verbatim>\<open>totalBidVol\<close>, \<^verbatim>\<open>totalAskVol\<close>,
  \<^verbatim>\<open>maxVolume\<close>, \<^verbatim>\<open>pocPrice\<close> and the counter.
\<close>

type_synonym level_state = "FootprintLevel list \<times> real \<times> real \<times> real \<times> real \<times> nat"

fun level_loop :: "(nat \<Rightarrow> real) \<Rightarrow> CandleData \<Rightarrow> nat \<Rightarrow> nat list \<Rightarrow> level_state \<Rightarrow> level_state" where
  "level_loop rnd candle levelsPerCandle [] st = st"
| "level_loop rnd candle levelsPerCandle (i # is) (lvls, totalBidVol, totalAskVol, maxVolume, poc, k) =
     (let lvl = footprint_level candle levelsPerCandle i (rnd k);
          totalLevelVolume = bidVolume lvl + askVolume lvl
      in level_loop rnd candle levelsPerCandle is
           (lvls @ [lvl],
            totalBidVol + bidVolume lvl,
            totalAskVol + askVolume lvl,
            (if totalLevelVolume > maxVolume then totalLevelVolume else maxVolume),
            (if totalLevelVolume > maxVolume then price lvl else poc),
            k + 1))"

fun footprint_loop :: "(nat \<Rightarrow> real) \<Rightarrow> nat \<Rightarrow> nat \<Rightarrow> CandleData list \<Rightarrow> FootprintCandle list \<times> nat" where
  "footprint_loop rnd levelsPerCandle k [] = ([], k)"
| "footprint_loop rnd levelsPerCandle k (candle # rest) =
     (if high candle - low candle = 0 then footprint_loop rnd levelsPerCandle k rest
      else
        case level_loop rnd candle levelsPerCandle [0..<levelsPerCandle]
               ([], 0, 0, 0, (high candle + low candle) / 2, k) of
          (lvls, totalBidVol, totalAskVol, maxVolume, poc, k') \<Rightarrow>
            (case footprint_loop rnd levelsPerCandle k' rest of
               (out, k'') \<Rightarrow>
                 (\<lparr>FootprintCandle.time = CandleData.time candle,
                    levels = lvls,
                    totalBidVolume = totalBidVol,
                    totalAskVolume = totalAskVol,
                    totalDelta = totalAskVol - totalBidVol,
                    pocPrice = poc\<rparr> # out, k'')))"

text \<open>The candles that the outer loop does not skip: \<^verbatim>\<open>range === 0\<close> is false.\<close>

abbreviation wide :: "CandleData \<Rightarrow> bool" where
  "wide c \<equiv> high c - low c \<noteq> 0"

text \<open>The result and the number of draws made when the call returns.\<close>

definition calculateFootprint ::
  "(nat \<Rightarrow> real) \<Rightarrow> nat \<Rightarrow> CandleData list \<Rightarrow> nat \<Rightarrow> FootprintCandle list \<times> nat" where
  "calculateFootprint rnd k candles levelsPerCandle = footprint_loop rnd levelsPerCandle k candles"

subsection \<open>The moving averages and the bands in rounded arithmetic\<close>

text \<open>
  The functions above compute in exact reals. An operation on doubles returns the exact
  result rounded to the nearest double, a tie going to the even significand. The
  functions of this subsection are the loops of \<^verbatim>\<open>calculateSMA\<close>, \<^verbatim>\<open>calculateEMA\<close>
  and \<^verbatim>\<open>calculateBollingerBands\<close> once more, with the result of every addition,
  subtraction, multiplication, division, square and square root passed through a
  rounding function \<open>rd\<close>, which is a parameter. With the identity for \<open>rd\<close> they are
  the functions above; with \<open>double_round\<close> they compute what the source computes in
  doubles from inputs that are doubles, as long as no result leaves the range of the
  normal doubles (the exponent range is not modelled) and \<^verbatim>\<open>Math.pow(x, 2)\<close> and
  \<^verbatim>\<open>Math.sqrt\<close> round correctly. The periods and the indices are integers, which
  doubles hold exactly: \<^verbatim>\<open>period + 1\<close> and \<^verbatim>\<open>i - j\<close> are not rounded.
\<close>

text \<open>Rounding to the nearest integer, a tie going to the even one.\<close>

definition round_even :: "real \<Rightarrow> int" where
  "round_even q =
     (let f = \<lfloor>q\<rfloor>; r = q - of_int f
      in if r < 1 / 2 then f else if 1 / 2 < r then f + 1 else if even f then f else f + 1)"

text \<open>Scaling a positive number by powers of two into \<open>[2^52, 2^53)\<close>, where the doubles
  are the integers; the first argument bounds the number of steps.\<close>

fun normalise :: "nat \<Rightarrow> real \<Rightarrow> int \<Rightarrow> real \<times> int" where
  "normalise 0 y e = (y, e)"
| "normalise (Suc n) y e =
     (if y < 2 ^ 52 then normalise n (2 * y) (e - 1)
      else if 2 ^ 53 \<le> y then normalise n (y / 2) (e + 1)
      else (y, e))"

definition scale :: "int \<Rightarrow> real \<Rightarrow> real" where
  "scale e v = (if 0 \<le> e then v * 2 ^ nat e else v / 2 ^ nat (- e))"

text \<open>The nearest number with a significand of 53 bits.\<close>

definition double_round :: "real \<Rightarrow> real" where
  "double_round x =
     (if x = 0 then 0
      else case normalise 2200 \<bar>x\<bar> 0 of
             (y, e) \<Rightarrow> sgn x * scale e (of_int (round_even y)))"

definition window_sum_rd :: "(real \<Rightarrow> real) \<Rightarrow> CandleData list \<Rightarrow> nat \<Rightarrow> nat \<Rightarrow> real" where
  "window_sum_rd rd candles period i =
     fold (\<lambda>j sum. rd (sum + close (candles ! (i - j)))) [0..<period] 0"

definition calculateSMA_rd ::
  "(real \<Rightarrow> real) \<Rightarrow> CandleData list \<Rightarrow> nat \<Rightarrow> js_error + IndicatorData list" where
  "calculateSMA_rd rd candles period =
     (if length candles < period then Inr []
      else if period = 0 then Inl TypeError
      else Inr (map (\<lambda>i. \<lparr>IndicatorData.time = CandleData.time (candles ! i),
                             value = rd (window_sum_rd rd candles period i / real period)\<rparr>)
                    [period - 1..<length candles]))"

definition seed_sum_rd :: "(real \<Rightarrow> real) \<Rightarrow> CandleData list \<Rightarrow> nat \<Rightarrow> real" where
  "seed_sum_rd rd candles period =
     fold (\<lambda>i sum. rd (sum + close (candles ! i))) [0..<period] 0"

fun ema_loop_rd ::
  "(real \<Rightarrow> real) \<Rightarrow> CandleData list \<Rightarrow> real \<Rightarrow> real \<Rightarrow> nat list \<Rightarrow> IndicatorData list" where
  "ema_loop_rd rd candles multiplier ema [] = []"
| "ema_loop_rd rd candles multiplier ema (i # is) =
     (let ema' = rd (rd (rd (close (candles ! i) - ema) * multiplier) + ema)
      in \<lparr>IndicatorData.time = CandleData.time (candles ! i), value = ema'\<rparr>
           # ema_loop_rd rd candles multiplier ema' is)"

definition calculateEMA_rd ::
  "(real \<Rightarrow> real) \<Rightarrow> CandleData list \<Rightarrow> nat \<Rightarrow> js_error + IndicatorData list" where
  "calculateEMA_rd rd candles period =
     (if length candles < period then Inr []
      else if period = 0 then Inl TypeError
      else
        let multiplier = rd (2 / (real period + 1));
            ema = rd (seed_sum_rd rd candles period / real period)
        in Inr (\<lparr>IndicatorData.time = CandleData.time (candles ! (period - 1)), value = ema\<rparr>
                  # ema_loop_rd rd candles multiplier ema [period..<length candles]))"

definition squared_diff_sum_rd ::
  "(real \<Rightarrow> real) \<Rightarrow> CandleData list \<Rightarrow> nat \<Rightarrow> nat \<Rightarrow> real \<Rightarrow> real" where
  "squared_diff_sum_rd rd candles period i sma =
     fold (\<lambda>j s. rd (s + rd ((rd (close (candles ! (i - j)) - sma))\<^sup>2))) [0..<period] 0"

definition calculateBollingerBands_rd ::
  "(real \<Rightarrow> real) \<Rightarrow> CandleData list \<Rightarrow> nat \<Rightarrow> real \<Rightarrow> js_error + BollingerBandData list" where
  "calculateBollingerBands_rd rd candles period stdDev =
     (if length candles < period then Inr []
      else if period = 0 then Inl TypeError
      else Inr (map (\<lambda>i. let sma = rd (window_sum_rd rd candles period i / real period);
                             std = rd (sqrt (rd (squared_diff_sum_rd rd candles period i sma
                                                   / real period)))
                         in \<lparr>BollingerBandData.time = CandleData.time (candles ! i),
                              upper = rd (sma + rd (stdDev * std)),
                              middle = sma,
                              lower = rd (sma - rd (stdDev * std))\<rparr>)
                    [period - 1..<length candles]))"

subsection \<open>Example inputs\<close>

definition candle :: "int \<Rightarrow> real \<Rightarrow> real \<Rightarrow> real \<Rightarrow> real \<Rightarrow> real \<Rightarrow> CandleData" where
  "candle t opn hi lo cl vol =
     \<lparr>CandleData.time = t, open = opn, high = hi, low = lo, close = cl, volume = vol\<rparr>"

text \<open>Three rising bars.\<close>

definition rising_bars :: "CandleData list" where
  "rising_bars = [candle 1 1 2 1 2 10, candle 2 2 4 2 3 20, candle 3 3 6 3 6 30]"

text \<open>Four rising bars.\<close>

definition four_bars :: "CandleData list" where
  "four_bars = rising_bars @ [candle 4 6 9 5 8 40]"

text \<open>Two bars of volume 1 with typical prices 1 and 3, and a bar of volume 0.\<close>

definition two_bars :: "CandleData list" where
  "two_bars = [candle 1 1 1 1 1 1, candle 2 3 3 3 3 1]"

definition idle_bar :: "CandleData" where
  "idle_bar = candle 1 5 9 2 4 0"

text \<open>A bullish bar with a range, and a random source whose first draw is 0 and whose
  later draws are 1/2.\<close>

definition wide_bar :: "CandleData" where
  "wide_bar = candle 1 1 3 1 2 8"

definition first_zero :: "nat \<Rightarrow> real" where
  "first_zero n = (if n = 0 then 0 else 1 / 2)"

text \<open>The doubles nearest to 0.1, 0.2 and 0.3, and three bars that close at them.\<close>

definition d01 :: real where
  "d01 = 3602879701896397 / 2 ^ 55"

definition d02 :: real where
  "d02 = 3602879701896397 / 2 ^ 54"

definition d03 :: real where
  "d03 = 5404319552844595 / 2 ^ 54"

definition tenth_bars :: "CandleData list" where
  "tenth_bars = [candle 1 d01 d01 d01 d01 1, candle 2 d02 d02 d02 d02 1,
                 candle 3 d03 d03 d03 d03 1]"

text \<open>Three bars that close at 1, 1 and 4, and the double nearest to the square root
  of 2.\<close>

definition root2 :: real where
  "root2 = 6369051672525773 / 2 ^ 52"

definition square_bars :: "CandleData list" where
  "square_bars = [candle 1 1 1 1 1 1, candle 2 1 1 1 1 1, candle 3 4 4 4 4 1]"

section \<open>Properties\<close>

subsection \<open>Window sums\<close>

lemma fold_add_sum:
  "fold (\<lambda>j s. s + f j) [a..<b] (s0::real) = s0 + (\<Sum>j = a..<b. f j)"
proof (induction b arbitrary: s0)
  case 0
  then show ?case by simp
next
  case (Suc b)
  then show ?case
    by (cases "a \<le> b") (simp_all add: sum.atLeastLessThan_Suc)
qed

lemma window_sum_eq:
  "window_sum candles period i = (\<Sum>j = 0..<period. close (candles ! (i - j)))"
  by (simp add: window_sum_def fold_add_sum)

lemma window_sum_forward:
  assumes "0 < period"
  shows "window_sum candles period (period - 1 + k)
           = (\<Sum>j = k..<k + period. close (candles ! j))"
proof -
  have "(\<Sum>j = 0..<period. close (candles ! (period - 1 + k - j)))
          = (\<Sum>j = k..<k + period. close (candles ! j))"
  proof (rule sum.reindex_bij_witness
      [where i = "\<lambda>j. period - 1 + k - j" and j = "\<lambda>j. period - 1 + k - j"])
  qed (use assms in auto)
  then show ?thesis by (simp add: window_sum_eq)
qed

lemma seed_sum_eq:
  "seed_sum candles period = (\<Sum>j = 0..<period. close (candles ! j))"
  by (simp add: seed_sum_def fold_add_sum)

subsection \<open>C4: shape and values of the simple moving average\<close>

text \<open>
  Claim C4. For a positive period \<open>P\<close> and \<open>L\<close> bars: if \<open>L < P\<close> the result of
  \<open>calculateSMA\<close> is the empty sequence; otherwise it has exactly \<open>L - P + 1\<close>
  points, and point \<open>i\<close> carries the time of bar \<open>P - 1 + i\<close> and the arithmetic
  mean of the closes of the bars \<open>i, \<dots>, i + P - 1\<close>.
\<close>

theorem calculateSMA_spec:
  assumes "0 < P"
  shows "(length bars < P \<longrightarrow> calculateSMA bars P = Inr []) \<and>
         (P \<le> length bars \<longrightarrow>
            (\<exists>pts. calculateSMA bars P = Inr pts \<and>
                   length pts = length bars - P + 1 \<and>
                   (\<forall>i < length pts.
                      IndicatorData.time (pts ! i) = CandleData.time (bars ! (P - 1 + i)) \<and>
                      value (pts ! i) = (\<Sum>j = i..<i + P. close (bars ! j)) / real P)))"
proof (intro conjI impI)
  assume "length bars < P"
  with assms show "calculateSMA bars P = Inr []"
    by (simp add: calculateSMA_def)
next
  assume le: "P \<le> length bars"
  define pts where "pts = map (\<lambda>i. \<lparr>IndicatorData.time = CandleData.time (bars ! i),
                             value = window_sum bars P i / real P\<rparr>)
                    [P - 1..<length bars]"
  have res: "calculateSMA bars P = Inr pts"
    using assms le by (simp add: calculateSMA_def pts_def)
  have len: "length pts = length bars - P + 1"
    using assms le by (simp add: pts_def)
  have pt: "IndicatorData.time (pts ! i) = CandleData.time (bars ! (P - 1 + i)) \<and>
            value (pts ! i) = (\<Sum>j = i..<i + P. close (bars ! j)) / real P"
    if "i < length pts" for i
  proof -
    from that have "pts ! i = \<lparr>IndicatorData.time = CandleData.time (bars ! (P - 1 + i)),
                             value = window_sum bars P (P - 1 + i) / real P\<rparr>"
      by (simp add: pts_def)
    then show ?thesis
      using window_sum_forward [OF assms, of bars i] by simp
  qed
  from res len pt show "\<exists>pts. calculateSMA bars P = Inr pts \<and>
                   length pts = length bars - P + 1 \<and>
                   (\<forall>i < length pts.
                      IndicatorData.time (pts ! i) = CandleData.time (bars ! (P - 1 + i)) \<and>
                      value (pts ! i) = (\<Sum>j = i..<i + P. close (bars ! j)) / real P)"
    by blast
qed

theorem calculateSMA_spec_witness:
  "(0::nat) < 2 \<and> 2 \<le> length rising_bars \<and> length [candle 1 1 2 1 2 10] < 2 \<and>
   calculateSMA [candle 1 1 2 1 2 10] 2 = Inr [] \<and>
   (\<exists>pts. calculateSMA rising_bars 2 = Inr pts \<and> length pts = 2 \<and>
      IndicatorData.time (pts ! 0) = 2 \<and> value (pts ! 0) = 5 / 2 \<and>
      IndicatorData.time (pts ! 1) = 3 \<and> value (pts ! 1) = 9 / 2)"
proof -
  have len: "length rising_bars = 3"
    by (simp add: rising_bars_def)
  have short: "calculateSMA [candle 1 1 2 1 2 10] 2 = Inr []"
    using calculateSMA_spec [of 2 "[candle 1 1 2 1 2 10]"] by simp
  from calculateSMA_spec [of 2 rising_bars] len
  obtain pts where res: "calculateSMA rising_bars 2 = Inr pts"
    and n: "length pts = 2"
    and pt: "\<And>i. i < length pts \<Longrightarrow>
                IndicatorData.time (pts ! i) = CandleData.time (rising_bars ! (2 - 1 + i)) \<and>
                value (pts ! i) = (\<Sum>j = i..<i + 2. close (rising_bars ! j)) / real 2"
    by auto
  have "IndicatorData.time (pts ! 0) = 2 \<and> value (pts ! 0) = 5 / 2"
    using pt [of 0] n by (simp add: rising_bars_def candle_def eval_nat_numeral)
  moreover have "IndicatorData.time (pts ! 1) = 3 \<and> value (pts ! 1) = 9 / 2"
    using pt [of 1] n by (simp add: rising_bars_def candle_def eval_nat_numeral)
  ultimately show ?thesis
    using res n len short by auto
qed

subsection \<open>Rounding to doubles\<close>

lemma normalise_up:
  assumes "2 ^ 52 \<le> y * 2 ^ k" and "y * 2 ^ k < 2 ^ 53" and "k \<le> n"
  shows "normalise n y e = (y * 2 ^ k, e - int k)"
  using assms
proof (induction k arbitrary: y e n)
  case 0
  then show ?case by (cases n) simp_all
next
  case (Suc k)
  then obtain m where n: "n = Suc m" and km: "k \<le> m"
    by (cases n) simp_all
  have two: "(2::real) \<le> 2 ^ Suc k"
    by (simp add: self_le_power)
  have pos: "0 < y"
  proof (rule ccontr)
    assume "\<not> 0 < y"
    then have "y * 2 ^ Suc k \<le> 0"
      by (simp add: mult_le_0_iff)
    with Suc.prems(1) show False
      by (smt (verit) zero_less_power)
  qed
  have "y * 2 \<le> y * 2 ^ Suc k"
    using pos two by (intro mult_left_mono) simp_all
  with Suc.prems(2) have small: "y < 2 ^ 52"
    by simp
  have "normalise m (2 * y) (e - 1) = (2 * y * 2 ^ k, e - 1 - int k)"
    using Suc.prems km by (intro Suc.IH) (simp_all add: mult.assoc mult.commute mult.left_commute)
  with small show ?case
    by (simp add: n mult.assoc mult.commute mult.left_commute)
qed

lemma double_round_pos:
  assumes "0 < x" and "2 ^ 52 \<le> x * 2 ^ k" and "x * 2 ^ k < 2 ^ 53" and "k \<le> 2200"
  shows "double_round x = of_int (round_even (x * 2 ^ k)) / 2 ^ k"
proof -
  have "normalise 2200 x 0 = (x * 2 ^ k, 0 - int k)"
    using assms by (intro normalise_up) simp_all
  moreover have "\<bar>x\<bar> = x"
    using assms(1) by simp
  ultimately show ?thesis
    using assms(1) by (simp add: double_round_def scale_def)
qed

lemma double_round_minus: "double_round (- x) = - double_round x"
  by (simp add: double_round_def split: prod.split)

text \<open>The rounded sums of the closes 0.1, 0.2, 0.3, forward and backward.\<close>

lemma forward_tenths:
  "double_round (0 + d01) = d01"
  "double_round (d01 + d02) = 1351079888211149 / 2 ^ 52"
  "double_round (1351079888211149 / 2 ^ 52 + d03) = 1351079888211149 / 2 ^ 51"
  "double_round (1351079888211149 / 2 ^ 51 / 3) = 7205759403792795 / 2 ^ 55"
  using double_round_pos [of "0 + d01" 56]
    double_round_pos [of "d01 + d02" 54]
    double_round_pos [of "1351079888211149 / 2 ^ 52 + d03" 53]
    double_round_pos [of "1351079888211149 / 2 ^ 51 / 3" 55]
  by (simp_all add: round_even_def d01_def d02_def d03_def)

lemma backward_tenths:
  "double_round (0 + d03) = d03"
  "double_round (d03 + d02) = 1 / 2"
  "double_round (1 / 2 + d01) = 5404319552844595 / 2 ^ 53"
  "double_round (5404319552844595 / 2 ^ 53 / 3) = 7205759403792793 / 2 ^ 55"
  using double_round_pos [of "0 + d03" 54]
    double_round_pos [of "d03 + d02" 53]
    double_round_pos [of "1 / 2 + d01" 53]
    double_round_pos [of "5404319552844595 / 2 ^ 53 / 3" 55]
  by (simp_all add: round_even_def d01_def d02_def d03_def)


lemma double_round_small:
  "double_round 1 = 1" "double_round 2 = 2" "double_round 4 = 4"
  "double_round 5 = 5" "double_round 6 = 6"
  using double_round_pos [of 1 52] double_round_pos [of 2 51] double_round_pos [of 4 50]
    double_round_pos [of 5 50] double_round_pos [of 6 50]
  by (simp_all add: round_even_def)

lemma double_round_sqrt2: "double_round (sqrt 2) = root2"
proof -
  define q where "q = sqrt 2 * 2 ^ 52"
  have lo: "6369051672525772 + 1 / 2 < q"
  proof -
    have "((6369051672525772 + 1 / 2) / 2 ^ 52)\<^sup>2 < (2::real)"
      by (simp add: power2_eq_square)
    then have "(6369051672525772 + 1 / 2) / 2 ^ 52 < sqrt 2"
      by (rule real_less_rsqrt)
    then show ?thesis
      by (simp add: q_def field_simps)
  qed
  have hi: "q < 6369051672525773"
  proof -
    have "(2::real) < (6369051672525773 / 2 ^ 52)\<^sup>2"
      by (simp add: power2_eq_square)
    then have "sqrt 2 < 6369051672525773 / 2 ^ 52"
      by (intro real_less_lsqrt) simp_all
    then show ?thesis
      by (simp add: q_def field_simps)
  qed
  have fl: "\<lfloor>q\<rfloor> = 6369051672525772"
    using lo hi by (intro floor_unique) simp_all
  have re: "round_even q = 6369051672525773"
    unfolding round_even_def Let_def fl using lo by simp
  have "2 ^ 52 \<le> q" and "q < 2 ^ 53"
    using lo hi by simp_all
  then have "double_round (sqrt 2) = of_int (round_even q) / 2 ^ 52"
    unfolding q_def by (intro double_round_pos) simp_all
  then show ?thesis
    unfolding re by (simp add: root2_def)
qed

lemma double_round_bands:
  "double_round (2 * root2) = 2 * root2"
  "double_round (2 + 2 * root2) = 5436325649948134 / 2 ^ 50"
  "double_round (2 - 2 * root2) = - (1865452045155277 / 2 ^ 51)"
proof -
  show "double_round (2 * root2) = 2 * root2"
    using double_round_pos [of "2 * root2" 51] by (simp add: round_even_def root2_def)
  show "double_round (2 + 2 * root2) = 5436325649948134 / 2 ^ 50"
    using double_round_pos [of "2 + 2 * root2" 50] by (simp add: round_even_def root2_def)
  have "double_round (- (2 * root2 - 2)) = - double_round (2 * root2 - 2)"
    by (rule double_round_minus)
  moreover have "double_round (2 * root2 - 2) = 1865452045155277 / 2 ^ 51"
    using double_round_pos [of "2 * root2 - 2" 53] by (simp add: round_even_def root2_def)
  ultimately show "double_round (2 - 2 * root2) = - (1865452045155277 / 2 ^ 51)"
    by simp
qed

subsection \<open>Index loops as folds over the window\<close>

lemma fold_index_foldl:
  "fold (\<lambda>j s. g s (h j)) js s0 = foldl g s0 (map h js)"
  by (induction js arbitrary: s0) simp_all

lemma forward_window:
  assumes "P \<le> length xs"
  shows "map (\<lambda>j. xs ! j) [0..<P] = take P xs"
  using assms by (intro nth_equalityI) simp_all

lemma backward_window:
  assumes "i + P \<le> length xs"
  shows "map (\<lambda>j. xs ! (P - 1 + i - j)) [0..<P] = rev (take P (drop i xs))"
proof (intro nth_equalityI)
  show "length (map (\<lambda>j. xs ! (P - 1 + i - j)) [0..<P]) = length (rev (take P (drop i xs)))"
    using assms by simp
next
  fix j assume "j < length (map (\<lambda>j. xs ! (P - 1 + i - j)) [0..<P])"
  then have j: "j < P" by simp
  then have "rev (take P (drop i xs)) ! j = take P (drop i xs) ! (P - Suc j)"
    using assms by (simp add: rev_nth)
  also have "\<dots> = xs ! (i + (P - Suc j))"
    using j assms by simp
  also have "i + (P - Suc j) = P - 1 + i - j"
    using j by simp
  finally show "map (\<lambda>j. xs ! (P - 1 + i - j)) [0..<P] ! j = rev (take P (drop i xs)) ! j"
    using j by simp
qed

lemma seed_sum_rd_foldl:
  assumes "P \<le> length bars"
  shows "seed_sum_rd rd bars P = foldl (\<lambda>sum c. rd (sum + close c)) 0 (take P bars)"
  unfolding seed_sum_rd_def
  using fold_index_foldl [of "\<lambda>sum c. rd (sum + close c)" "\<lambda>j. bars ! j" "[0..<P]" 0]
  by (simp only: forward_window [OF assms])

lemma window_sum_rd_foldl:
  assumes "i + P \<le> length bars"
  shows "window_sum_rd rd bars P (P - 1 + i)
           = foldl (\<lambda>sum c. rd (sum + close c)) 0 (rev (take P (drop i bars)))"
  unfolding window_sum_rd_def
  using fold_index_foldl [of "\<lambda>sum c. rd (sum + close c)" "\<lambda>j. bars ! (P - 1 + i - j)" "[0..<P]" 0]
  by (simp only: backward_window [OF assms])

lemma squared_diff_sum_rd_foldl:
  assumes "i + P \<le> length bars"
  shows "squared_diff_sum_rd rd bars P (P - 1 + i) m
           = foldl (\<lambda>s c. rd (s + rd ((rd (close c - m))\<^sup>2))) 0 (rev (take P (drop i bars)))"
  unfolding squared_diff_sum_rd_def
  using fold_index_foldl [of "\<lambda>s c. rd (s + rd ((rd (close c - m))\<^sup>2))"
      "\<lambda>j. bars ! (P - 1 + i - j)" "[0..<P]" 0]
  by (simp only: backward_window [OF assms])

text \<open>With the identity for \<open>rd\<close> the rounded functions are the exact ones.\<close>

lemma rd_identity:
  "window_sum_rd (\<lambda>x. x) = window_sum"
  "seed_sum_rd (\<lambda>x. x) = seed_sum"
  "squared_diff_sum_rd (\<lambda>x. x) = squared_diff_sum"
  by (simp_all add: fun_eq_iff window_sum_rd_def window_sum_def seed_sum_rd_def seed_sum_def
      squared_diff_sum_rd_def squared_diff_sum_def)

lemma ema_loop_rd_identity: "ema_loop_rd (\<lambda>x. x) candles m e is = ema_loop candles m e is"
  by (induction "is" arbitrary: e) (simp_all add: Let_def)

lemma calculate_rd_identity:
  "calculateSMA_rd (\<lambda>x. x) = calculateSMA"
  "calculateEMA_rd (\<lambda>x. x) = calculateEMA"
  "calculateBollingerBands_rd (\<lambda>x. x) = calculateBollingerBands"
  by (simp_all add: fun_eq_iff calculateSMA_rd_def calculateSMA_def calculateEMA_rd_def
      calculateEMA_def calculateBollingerBands_rd_def calculateBollingerBands_def
      rd_identity ema_loop_rd_identity)

lemma length_ema_loop_rd [simp]: "length (ema_loop_rd rd candles m e is) = length is"
  by (induction "is" arbitrary: e) (simp_all add: Let_def)

lemma ema_loop_rd_step:
  assumes "i < length is"
  shows "IndicatorData.time ((p # ema_loop_rd rd candles m (value p) is) ! Suc i)
           = CandleData.time (candles ! (is ! i)) \<and>
         value ((p # ema_loop_rd rd candles m (value p) is) ! Suc i)
           = rd (rd (rd (close (candles ! (is ! i))
                         - value ((p # ema_loop_rd rd candles m (value p) is) ! i)) * m)
                 + value ((p # ema_loop_rd rd candles m (value p) is) ! i))"
  using assms
proof (induction "is" arbitrary: p i)
  case Nil
  then show ?case by simp
next
  case (Cons j js)
  define q where "q = \<lparr>IndicatorData.time = CandleData.time (candles ! j),
                        value = rd (rd (rd (close (candles ! j) - value p) * m) + value p)\<rparr>"
  have unfold: "ema_loop_rd rd candles m (value p) (j # js)
                  = q # ema_loop_rd rd candles m (value q) js"
    by (simp add: q_def Let_def)
  show ?case
  proof (cases i)
    case 0
    then show ?thesis by (simp add: Let_def)
  next
    case (Suc i')
    with Cons.prems have "i' < length js" by simp
    from Cons.IH [OF this, of q] show ?thesis
      by (simp add: unfold Suc del: ema_loop_rd.simps)
  qed
qed

subsection \<open>C5: seed and recurrence of the exponential moving average\<close>

lemma tenth_bars_facts:
  "length tenth_bars = 3"
  "CandleData.time (tenth_bars ! 2) = 3"
  "close (tenth_bars ! 0) = d01" "close (tenth_bars ! Suc 0) = d02"
  "close (tenth_bars ! Suc (Suc 0)) = d03"
  by (simp_all add: tenth_bars_def candle_def)

text \<open>
  Claim C5, as stated: the value of the first point of \<open>calculateEMA\<close> is exactly
  equal to the SMA of the first \<open>P\<close> closes. The source accumulates the seed of the
  EMA from the first close to the last, and the window of \<open>calculateSMA\<close> from the
  last close to the first. For three bars that close at the doubles nearest to 0.1,
  0.2 and 0.3 and period 3, in doubles: the first value of the EMA is
  \<open>7205759403792795 / 2^55\<close> (printed 0.20000000000000004), the first value of the
  SMA is \<open>7205759403792793 / 2^55\<close> (printed 0.19999999999999998).
\<close>

theorem calculateEMA_seed_not_SMA_counterexample:
  "calculateEMA_rd double_round tenth_bars 3
     = Inr [\<lparr>IndicatorData.time = 3, value = 7205759403792795 / 2 ^ 55\<rparr>] \<and>
   calculateSMA_rd double_round tenth_bars 3
     = Inr [\<lparr>IndicatorData.time = 3, value = 7205759403792793 / 2 ^ 55\<rparr>] \<and>
   (7205759403792795 / 2 ^ 55 :: real) \<noteq> 7205759403792793 / 2 ^ 55"
proof -
  have "seed_sum_rd double_round tenth_bars 3
          = double_round (double_round (double_round (0 + d01) + d02) + d03)"
    by (simp add: seed_sum_rd_def tenth_bars_facts eval_nat_numeral)
  then have seed: "seed_sum_rd double_round tenth_bars 3 = 1351079888211149 / 2 ^ 51"
    by (simp only: forward_tenths)
  have "window_sum_rd double_round tenth_bars 3 2
          = double_round (double_round (double_round (0 + d03) + d02) + d01)"
    by (simp add: window_sum_rd_def tenth_bars_facts eval_nat_numeral)
  then have window: "window_sum_rd double_round tenth_bars 3 2 = 5404319552844595 / 2 ^ 53"
    by (simp only: backward_tenths)
  have "calculateEMA_rd double_round tenth_bars 3
          = Inr [\<lparr>IndicatorData.time = 3,
                  value = double_round (seed_sum_rd double_round tenth_bars 3 / 3)\<rparr>]"
    by (simp add: calculateEMA_rd_def tenth_bars_facts Let_def)
  then have e: "calculateEMA_rd double_round tenth_bars 3
          = Inr [\<lparr>IndicatorData.time = 3, value = 7205759403792795 / 2 ^ 55\<rparr>]"
    by (simp only: seed forward_tenths)
  have "calculateSMA_rd double_round tenth_bars 3
          = Inr [\<lparr>IndicatorData.time = 3,
                  value = double_round (window_sum_rd double_round tenth_bars 3 2 / 3)\<rparr>]"
    by (simp add: calculateSMA_rd_def tenth_bars_facts)
  then have s: "calculateSMA_rd double_round tenth_bars 3
          = Inr [\<lparr>IndicatorData.time = 3, value = 7205759403792793 / 2 ^ 55\<rparr>]"
    by (simp only: window backward_tenths)
  have "(7205759403792795 / 2 ^ 55 :: real) \<noteq> 7205759403792793 / 2 ^ 55"
    by simp
  with e s show ?thesis by (intro conjI)
qed

text \<open>
  Claim C5, amended: with a positive period \<open>P\<close> and at least \<open>P\<close> bars, the first point
  of \<open>calculateEMA\<close> is emitted at the time of bar \<open>P - 1\<close> and its value is the sum of
  the first \<open>P\<close> closes, accumulated from the first close to the last, divided by
  \<open>P\<close>; every later point \<open>i\<close> carries the time of bar \<open>P - 1 + i\<close> and the value
  \<open>(close - previous) * \<alpha> + previous\<close> with \<open>\<alpha> = 2 / (P + 1)\<close>; with fewer than
  \<open>P\<close> bars the result is empty. All this holds with every operation rounded, by
  any rounding. The first point of \<open>calculateSMA\<close> accumulates the same closes from
  the last to the first: the two values are equal in exact arithmetic, and need not
  be in doubles.
\<close>

theorem calculateEMA_rd_spec:
  assumes "0 < P"
  shows "(length bars < P \<longrightarrow> calculateEMA_rd rd bars P = Inr []) \<and>
         (P \<le> length bars \<longrightarrow>
            (\<exists>pts spts. calculateEMA_rd rd bars P = Inr pts \<and>
               calculateSMA_rd rd bars P = Inr spts \<and>
               length pts = length bars - P + 1 \<and>
               IndicatorData.time (pts ! 0) = CandleData.time (bars ! (P - 1)) \<and>
               value (pts ! 0)
                 = rd (foldl (\<lambda>sum c. rd (sum + close c)) 0 (take P bars) / real P) \<and>
               value (spts ! 0)
                 = rd (foldl (\<lambda>sum c. rd (sum + close c)) 0 (rev (take P bars)) / real P) \<and>
               (\<forall>i. 0 < i \<and> i < length pts \<longrightarrow>
                  IndicatorData.time (pts ! i) = CandleData.time (bars ! (P - 1 + i)) \<and>
                  value (pts ! i)
                    = rd (rd (rd (close (bars ! (P - 1 + i)) - value (pts ! (i - 1)))
                              * rd (2 / (real P + 1)))
                          + value (pts ! (i - 1)))) \<and>
               ((\<forall>x. rd x = x) \<longrightarrow>
                  value (pts ! 0) = (\<Sum>j = 0..<P. close (bars ! j)) / real P \<and>
                  value (pts ! 0) = value (spts ! 0))))"
proof (intro conjI impI)
  assume "length bars < P"
  then show "calculateEMA_rd rd bars P = Inr []"
    by (simp add: calculateEMA_rd_def)
next
  assume le: "P \<le> length bars"
  define p0 where "p0 = \<lparr>IndicatorData.time = CandleData.time (bars ! (P - 1)),
                          value = rd (seed_sum_rd rd bars P / real P)\<rparr>"
  define pts where
    "pts = p0 # ema_loop_rd rd bars (rd (2 / (real P + 1))) (value p0) [P..<length bars]"
  define spts where "spts = map (\<lambda>i. \<lparr>IndicatorData.time = CandleData.time (bars ! i),
                             value = rd (window_sum_rd rd bars P i / real P)\<rparr>)
                    [P - 1..<length bars]"
  have res: "calculateEMA_rd rd bars P = Inr pts"
    using assms le by (simp add: calculateEMA_rd_def pts_def p0_def Let_def)
  have sres: "calculateSMA_rd rd bars P = Inr spts"
    using assms le by (simp add: calculateSMA_rd_def spts_def)
  have len: "length pts = length bars - P + 1"
    by (simp add: pts_def)
  have t0: "IndicatorData.time (pts ! 0) = CandleData.time (bars ! (P - 1))"
    by (simp add: pts_def p0_def)
  have seed: "value (pts ! 0) = rd (seed_sum_rd rd bars P / real P)"
    by (simp add: pts_def p0_def)
  have v0: "value (pts ! 0)
              = rd (foldl (\<lambda>sum c. rd (sum + close c)) 0 (take P bars) / real P)"
    unfolding seed by (simp only: seed_sum_rd_foldl [OF le])
  have "value (spts ! 0) = rd (window_sum_rd rd bars P (P - 1 + 0) / real P)"
    using assms le by (simp add: spts_def)
  also have "window_sum_rd rd bars P (P - 1 + 0)
               = foldl (\<lambda>sum c. rd (sum + close c)) 0 (rev (take P (drop 0 bars)))"
    using le by (intro window_sum_rd_foldl) simp
  finally have s0: "value (spts ! 0)
              = rd (foldl (\<lambda>sum c. rd (sum + close c)) 0 (rev (take P bars)) / real P)"
    by simp
  have step: "IndicatorData.time (pts ! i) = CandleData.time (bars ! (P - 1 + i)) \<and>
              value (pts ! i)
                = rd (rd (rd (close (bars ! (P - 1 + i)) - value (pts ! (i - 1)))
                          * rd (2 / (real P + 1)))
                      + value (pts ! (i - 1)))"
    if "0 < i \<and> i < length pts" for i
  proof -
    from that obtain k where i: "i = Suc k" and k: "k < length [P..<length bars]"
      using len by (cases i) auto
    from k have idx: "[P..<length bars] ! k = P - 1 + i"
      using assms i by simp
    from ema_loop_rd_step [OF k, of p0 rd bars "rd (2 / (real P + 1))"] show ?thesis
      unfolding pts_def [symmetric] idx i [symmetric] by (simp add: i)
  qed
  have exact: "value (pts ! 0) = (\<Sum>j = 0..<P. close (bars ! j)) / real P \<and>
               value (pts ! 0) = value (spts ! 0)"
    if "\<forall>x. rd x = x"
  proof -
    from that have rd: "rd = (\<lambda>x. x)"
      by (simp add: fun_eq_iff)
    have a: "value (pts ! 0) = (\<Sum>j = 0..<P. close (bars ! j)) / real P"
      unfolding seed rd by (simp add: rd_identity seed_sum_eq)
    have "value (spts ! 0) = window_sum bars P (P - 1 + 0) / real P"
      using assms le by (simp add: spts_def rd rd_identity)
    also have "\<dots> = (\<Sum>j = 0..<P. close (bars ! j)) / real P"
      using window_sum_forward [OF assms, of bars 0] by simp
    finally show ?thesis
      using a by simp
  qed
  from res sres len t0 v0 s0 step exact
  show "\<exists>pts spts. calculateEMA_rd rd bars P = Inr pts \<and>
               calculateSMA_rd rd bars P = Inr spts \<and>
               length pts = length bars - P + 1 \<and>
               IndicatorData.time (pts ! 0) = CandleData.time (bars ! (P - 1)) \<and>
               value (pts ! 0)
                 = rd (foldl (\<lambda>sum c. rd (sum + close c)) 0 (take P bars) / real P) \<and>
               value (spts ! 0)
                 = rd (foldl (\<lambda>sum c. rd (sum + close c)) 0 (rev (take P bars)) / real P) \<and>
               (\<forall>i. 0 < i \<and> i < length pts \<longrightarrow>
                  IndicatorData.time (pts ! i) = CandleData.time (bars ! (P - 1 + i)) \<and>
                  value (pts ! i)
                    = rd (rd (rd (close (bars ! (P - 1 + i)) - value (pts ! (i - 1)))
                              * rd (2 / (real P + 1)))
                          + value (pts ! (i - 1)))) \<and>
               ((\<forall>x. rd x = x) \<longrightarrow>
                  value (pts ! 0) = (\<Sum>j = 0..<P. close (bars ! j)) / real P \<and>
                  value (pts ! 0) = value (spts ! 0))"
    by blast
qed

theorem calculateEMA_rd_spec_witness:
  "(0::nat) < 2 \<and> 2 \<le> length rising_bars \<and> length [candle 1 1 2 1 2 10] < 2 \<and>
   (\<forall>x::real. (\<lambda>x. x) x = x) \<and>
   calculateEMA_rd (\<lambda>x. x) [candle 1 1 2 1 2 10] 2 = Inr [] \<and>
   (\<exists>pts. calculateEMA_rd (\<lambda>x. x) rising_bars 2 = Inr pts \<and> length pts = 2 \<and>
      (0::nat) < 1 \<and> 1 < length pts \<and>
      IndicatorData.time (pts ! 0) = 2 \<and> value (pts ! 0) = 5 / 2 \<and>
      IndicatorData.time (pts ! 1) = 3 \<and> value (pts ! 1) = 29 / 6) \<and>
   (3::nat) \<le> length tenth_bars \<and>
   (\<exists>pts. calculateEMA_rd double_round tenth_bars 3 = Inr pts \<and>
      value (pts ! 0) = 7205759403792795 / 2 ^ 55)"
proof -
  have len: "length rising_bars = 3"
    by (simp add: rising_bars_def)
  have short: "calculateEMA_rd (\<lambda>x. x) [candle 1 1 2 1 2 10] 2 = Inr []"
    using calculateEMA_rd_spec [of 2 "[candle 1 1 2 1 2 10]" "\<lambda>x. x"] by simp
  from calculateEMA_rd_spec [of 2 rising_bars "\<lambda>x. x"] len
  obtain pts where res: "calculateEMA_rd (\<lambda>x. x) rising_bars 2 = Inr pts"
    and n: "length pts = 2"
    and t0: "IndicatorData.time (pts ! 0) = CandleData.time (rising_bars ! (2 - 1))"
    and v0: "value (pts ! 0) = (\<Sum>j = 0..<2. close (rising_bars ! j)) / real 2"
    and pt: "\<And>i. 0 < i \<and> i < length pts \<Longrightarrow>
                IndicatorData.time (pts ! i) = CandleData.time (rising_bars ! (2 - 1 + i)) \<and>
                value (pts ! i)
                  = (close (rising_bars ! (2 - 1 + i)) - value (pts ! (i - 1))) * (2 / (real 2 + 1))
                      + value (pts ! (i - 1))"
    by auto
  have a: "IndicatorData.time (pts ! 0) = 2 \<and> value (pts ! 0) = 5 / 2"
    using t0 v0 by (simp add: rising_bars_def candle_def eval_nat_numeral)
  then have b: "IndicatorData.time (pts ! 1) = 3 \<and> value (pts ! 1) = 29 / 6"
    using pt [of 1] n by (simp add: rising_bars_def candle_def eval_nat_numeral)
  have exact: "\<exists>pts. calculateEMA_rd (\<lambda>x. x) rising_bars 2 = Inr pts \<and> length pts = 2 \<and>
      (0::nat) < 1 \<and> 1 < length pts \<and>
      IndicatorData.time (pts ! 0) = 2 \<and> value (pts ! 0) = 5 / 2 \<and>
      IndicatorData.time (pts ! 1) = 3 \<and> value (pts ! 1) = 29 / 6"
    using res n a b by auto
  have tl: "(3::nat) \<le> length tenth_bars"
    by (simp add: tenth_bars_def)
  have fwd: "foldl (\<lambda>sum c. double_round (sum + close c)) 0 (take 3 tenth_bars)
               = double_round (double_round (double_round (0 + d01) + d02) + d03)"
    by (simp add: tenth_bars_def candle_def)
  from calculateEMA_rd_spec [of 3 tenth_bars double_round] tl
  obtain dpts where dres: "calculateEMA_rd double_round tenth_bars 3 = Inr dpts"
    and "value (dpts ! 0)
           = double_round (foldl (\<lambda>sum c. double_round (sum + close c)) 0 (take 3 tenth_bars)
                             / real 3)"
    by auto
  then have "value (dpts ! 0)
           = double_round (double_round (double_round (double_round (0 + d01) + d02) + d03) / 3)"
    unfolding fwd by simp
  then have "value (dpts ! 0) = 7205759403792795 / 2 ^ 55"
    by (simp only: forward_tenths)
  with dres have rounded: "\<exists>pts. calculateEMA_rd double_round tenth_bars 3 = Inr pts \<and>
      value (pts ! 0) = 7205759403792795 / 2 ^ 55"
    by blast
  from len short exact tl rounded show ?thesis
    by simp
qed

subsection \<open>C6: the relative strength index of a rising series\<close>

lemma rsi_value_zero_loss: "rsi_value avgGain 0 = 100 - 100 / 101"
  by (simp add: rsi_value_def)

lemma length_rsi_loop [simp]:
  "length (rsi_loop candles gains losses period avgGain avgLoss is) = length is"
  by (induction "is" arbitrary: avgGain avgLoss) (simp_all add: Let_def)

lemma rsi_loop_zero_loss:
  assumes "\<forall>i \<in> set is. losses ! i = 0"
  shows "\<forall>p \<in> set (rsi_loop candles gains losses period avgGain 0 is).
           value p = 100 - 100 / 101"
  using assms
  by (induction "is" arbitrary: avgGain) (simp_all add: Let_def rsi_value_zero_loss)

lemma foldl_add_zeros: "\<forall>x \<in> set xs. x = (0::real) \<Longrightarrow> foldl (+) 0 xs = 0"
  by (induction xs) simp_all

lemma length_price_losses [simp]: "length (price_losses candles) = length candles - 1"
  by (simp add: price_losses_def)

lemma length_price_gains [simp]: "length (price_gains candles) = length candles - 1"
  by (simp add: price_gains_def)

lemma rising_losses_zero:
  assumes "\<forall>i. i + 1 < length bars \<longrightarrow> close (bars ! i) < close (bars ! (i + 1))"
    and "k < length bars - 1"
  shows "price_losses bars ! k = 0"
proof -
  from assms have "close (bars ! k) < close (bars ! (k + 1))" by simp
  moreover have "price_losses bars ! k
      = (let change = close (bars ! (k + 1)) - close (bars ! k)
         in if change < 0 then \<bar>change\<bar> else 0)"
    using assms(2) by (simp add: price_losses_def)
  ultimately show ?thesis by (simp add: Let_def)
qed

text \<open>
  Claim C6. For a positive period and at least \<open>period + 1\<close> bars with strictly increasing
  closes, \<open>calculateRSI\<close> returns \<open>length - period\<close> points, and the value of every
  one of them is exactly \<open>100 - 100/101\<close>, which is not 100: the average loss is
  0 at every step, so that the rule \<open>RS = 100\<close> applies and the only divisors are the
  period and \<open>1 + RS = 101\<close>.
\<close>

theorem calculateRSI_rising:
  assumes "0 < period" and "period + 1 \<le> length bars"
    and "\<forall>i. i + 1 < length bars \<longrightarrow> close (bars ! i) < close (bars ! (i + 1))"
  shows "\<exists>pts. calculateRSI bars period = Inr pts \<and>
               length pts = length bars - period \<and>
               (\<forall>p \<in> set pts. value p = 100 - 100 / 101 \<and> value p \<noteq> 100)"
proof -
  define gains where "gains = price_gains bars"
  define losses where "losses = price_losses bars"
  define avgGain where "avgGain = foldl (+) 0 (take period gains) / real period"
  define p0 where "p0 = \<lparr>IndicatorData.time = CandleData.time (bars ! period),
                          value = rsi_value avgGain 0\<rparr>"
  define pts where
    "pts = p0 # rsi_loop bars gains losses period avgGain 0 [period..<length gains]"
  have zero: "losses ! k = 0" if "k < length bars - 1" for k
    using rising_losses_zero [OF assms(3) that] by (simp add: losses_def)
  have "\<forall>x \<in> set (take period losses). x = 0"
  proof
    fix x assume "x \<in> set (take period losses)"
    then obtain k where "k < length (take period losses)" and "x = take period losses ! k"
      by (auto simp: in_set_conv_nth)
    then show "x = 0"
      using zero [of k] by (simp add: losses_def)
  qed
  then have avgLoss: "foldl (+) 0 (take period losses) / real period = 0"
    by (simp add: foldl_add_zeros)
  have res: "calculateRSI bars period = Inr pts"
    using assms(1,2) avgLoss
    by (simp add: calculateRSI_def Let_def pts_def p0_def gains_def losses_def avgGain_def)
  have len: "length pts = length bars - period"
    using assms(1,2) by (simp add: pts_def gains_def)
  have "\<forall>i \<in> set [period..<length gains]. losses ! i = 0"
    using zero by (simp add: gains_def)
  from rsi_loop_zero_loss [OF this]
  have "\<forall>p \<in> set pts. value p = 100 - 100 / 101"
    by (simp add: pts_def p0_def rsi_value_zero_loss)
  moreover have "(100::real) - 100 / 101 \<noteq> 100"
    by simp
  ultimately have "\<forall>p \<in> set pts. value p = 100 - 100 / 101 \<and> value p \<noteq> 100"
    by metis
  with res len show ?thesis by blast
qed

theorem calculateRSI_rising_witness:
  "(0::nat) < 2 \<and> 2 + 1 \<le> length rising_bars \<and>
   close (rising_bars ! 0) < close (rising_bars ! 1) \<and>
   close (rising_bars ! 1) < close (rising_bars ! 2) \<and>
   (\<exists>pts. calculateRSI rising_bars 2 = Inr pts \<and> length pts = 1 \<and>
      value (hd pts) = 100 - 100 / 101)"
proof -
  have len: "length rising_bars = 3"
    by (simp add: rising_bars_def)
  have rising: "\<forall>i. i + 1 < length rising_bars \<longrightarrow>
                   close (rising_bars ! i) < close (rising_bars ! (i + 1))"
  proof (intro allI impI)
    fix i assume "i + 1 < length rising_bars"
    then have "i = 0 \<or> i = 1" using len by auto
    then show "close (rising_bars ! i) < close (rising_bars ! (i + 1))"
      by (auto simp: rising_bars_def candle_def)
  qed
  from calculateRSI_rising [of 2 rising_bars, OF _ _ rising] len
  obtain pts where "calculateRSI rising_bars 2 = Inr pts" and "length pts = 1"
    and "\<forall>p \<in> set pts. value p = 100 - 100 / 101 \<and> value p \<noteq> 100"
    by auto
  moreover from this have "value (hd pts) = 100 - 100 / 101"
    by (cases pts) auto
  moreover have "close (rising_bars ! 0) < close (rising_bars ! 1)"
    and "close (rising_bars ! 1) < close (rising_bars ! 2)"
    by (simp_all add: rising_bars_def candle_def)
  ultimately show ?thesis
    using len by auto
qed

subsection \<open>C7: the histogram of MACD\<close>

lemma signal_loop_histogram:
  "\<forall>p \<in> set (signal_loop macdLine multiplier sig is). histogram p = macd p - signal p"
  by (induction "is" arbitrary: sig) (simp_all add: Let_def)

text \<open>
  Claim C7. For every bar sequence and every choice of the three periods, every point
  that \<open>calculateMACD\<close> returns has \<open>histogram = macd - signal\<close>.
\<close>

theorem calculateMACD_histogram:
  assumes "calculateMACD candles fastPeriod slowPeriod signalPeriod = Inr pts"
  shows "\<forall>p \<in> set pts. histogram p = macd p - signal p"
proof (cases "length candles < slowPeriod + signalPeriod")
  case True
  with assms show ?thesis
    by (simp add: calculateMACD_def)
next
  case False
  with assms obtain fastEMA slowEMA
    where "calculateEMA candles fastPeriod = Inr fastEMA"
      and "calculateEMA candles slowPeriod = Inr slowEMA"
    by (auto simp: calculateMACD_def split: sum.splits)
  with assms False show ?thesis
    using signal_loop_histogram
    by (auto simp: calculateMACD_def Let_def split: if_splits)
qed

theorem calculateMACD_histogram_witness:
  "calculateMACD four_bars 1 2 2
     = Inr [\<lparr>MACDData.time = 3, macd = 7 / 6, signal = 5 / 6, histogram = 1 / 3\<rparr>,
            \<lparr>MACDData.time = 4, macd = 19 / 18, signal = 53 / 54, histogram = 2 / 27\<rparr>] \<and>
   histogram \<lparr>MACDData.time = 3, macd = 7 / 6, signal = 5 / 6, histogram = 1 / 3\<rparr>
     = macd \<lparr>MACDData.time = 3, macd = 7 / 6, signal = 5 / 6, histogram = 1 / 3\<rparr>
       - signal \<lparr>MACDData.time = 3, macd = 7 / 6, signal = 5 / 6, histogram = 1 / 3\<rparr> \<and>
   histogram \<lparr>MACDData.time = 4, macd = 19 / 18, signal = 53 / 54, histogram = 2 / 27\<rparr>
     = macd \<lparr>MACDData.time = 4, macd = 19 / 18, signal = 53 / 54, histogram = 2 / 27\<rparr>
       - signal \<lparr>MACDData.time = 4, macd = 19 / 18, signal = 53 / 54, histogram = 2 / 27\<rparr>"
proof -
  have run: "calculateMACD four_bars 1 2 2
     = Inr [\<lparr>MACDData.time = 3, macd = 7 / 6, signal = 5 / 6, histogram = 1 / 3\<rparr>,
            \<lparr>MACDData.time = 4, macd = 19 / 18, signal = 53 / 54, histogram = 2 / 27\<rparr>]"
    by code_simp
  from calculateMACD_histogram [OF run] have
    "\<forall>p \<in> set [\<lparr>MACDData.time = 3, macd = 7 / 6, signal = 5 / 6, histogram = 1 / 3\<rparr>,
            \<lparr>MACDData.time = 4, macd = 19 / 18, signal = 53 / 54, histogram = 2 / 27\<rparr>].
       histogram p = macd p - signal p" .
  then have "histogram \<lparr>MACDData.time = 3, macd = 7 / 6, signal = 5 / 6, histogram = 1 / 3\<rparr>
     = macd \<lparr>MACDData.time = 3, macd = 7 / 6, signal = 5 / 6, histogram = 1 / 3\<rparr>
       - signal \<lparr>MACDData.time = 3, macd = 7 / 6, signal = 5 / 6, histogram = 1 / 3\<rparr>"
    and "histogram \<lparr>MACDData.time = 4, macd = 19 / 18, signal = 53 / 54, histogram = 2 / 27\<rparr>
     = macd \<lparr>MACDData.time = 4, macd = 19 / 18, signal = 53 / 54, histogram = 2 / 27\<rparr>
       - signal \<lparr>MACDData.time = 4, macd = 19 / 18, signal = 53 / 54, histogram = 2 / 27\<rparr>"
    by (blast intro: list.set_intros)+
  with run show ?thesis
    by (intro conjI)
qed

subsection \<open>C8: Bollinger bands\<close>

lemma sum_window_reindex:
  assumes "0 < (P::nat)"
  shows "(\<Sum>j = 0..<P. g (P - 1 + k - j)) = (\<Sum>j = k..<k + P. (g j :: real))"
proof (rule sum.reindex_bij_witness
      [where i = "\<lambda>j. P - 1 + k - j" and j = "\<lambda>j. P - 1 + k - j"])
qed (use assms in auto)

lemma squared_diff_sum_forward:
  assumes "0 < P"
  shows "squared_diff_sum candles P (P - 1 + k) m
           = (\<Sum>j = k..<k + P. (close (candles ! j) - m)\<^sup>2)"
  using sum_window_reindex [OF assms, of "\<lambda>j. (close (candles ! j) - m)\<^sup>2" k]
  by (simp add: squared_diff_sum_def fold_add_sum)

lemma square_bars_facts:
  "length square_bars = 3"
  "CandleData.time (square_bars ! 2) = 3"
  "close (square_bars ! 0) = 1" "close (square_bars ! Suc 0) = 1"
  "close (square_bars ! Suc (Suc 0)) = 4"
  by (simp_all add: square_bars_def candle_def)

text \<open>
  Claim C8, as stated: every point satisfies \<open>upper - middle = middle - lower\<close>. The
  source computes \<open>middle + k * \<sigma>\<close> and \<open>middle - k * \<sigma>\<close> and rounds each on its own.
  For three bars that close at 1, 1 and 4, period 3 and \<open>k = 2\<close>, in doubles: the
  middle is 2, \<open>\<sigma>\<close> is the double nearest to the square root of 2, the sum
  \<open>2 + 2 \<sigma>\<close> lies half way between two doubles and is rounded down, the difference
  \<open>2 - 2 \<sigma>\<close> is a double; \<open>upper - middle\<close> and \<open>middle - lower\<close> differ by \<open>2^-51\<close>.
\<close>

theorem calculateBollingerBands_asymmetric_counterexample:
  "calculateBollingerBands_rd double_round square_bars 3 2
     = Inr [\<lparr>BollingerBandData.time = 3,
              upper = 5436325649948134 / 2 ^ 50,
              middle = 2,
              lower = - (1865452045155277 / 2 ^ 51)\<rparr>] \<and>
   (5436325649948134 / 2 ^ 50 - 2 :: real) = 6369051672525772 / 2 ^ 51 \<and>
   (2 - (- (1865452045155277 / 2 ^ 51)) :: real) = 6369051672525773 / 2 ^ 51 \<and>
   (5436325649948134 / 2 ^ 50 - 2 :: real) \<noteq> 2 - (- (1865452045155277 / 2 ^ 51))"
proof -
  have w: "window_sum_rd double_round square_bars 3 2 = 6"
    by (simp add: window_sum_rd_def square_bars_facts eval_nat_numeral double_round_small)
  have m: "double_round (6 / 3) = 2"
    by (simp add: double_round_small)
  have "double_round (- 1) = - 1"
    using double_round_minus [of 1] by (simp add: double_round_small)
  then have q: "squared_diff_sum_rd double_round square_bars 3 2 2 = 6"
    by (simp add: squared_diff_sum_rd_def square_bars_facts eval_nat_numeral double_round_small)
  have "calculateBollingerBands_rd double_round square_bars 3 2
     = Inr [\<lparr>BollingerBandData.time = 3,
              upper = double_round (2 + double_round (2 * double_round (sqrt (double_round (6 / 3))))),
              middle = 2,
              lower = double_round (2 - double_round (2 * double_round (sqrt (double_round (6 / 3)))))\<rparr>]"
    by (simp add: calculateBollingerBands_rd_def square_bars_facts Let_def w q double_round_small)
  then have run: "calculateBollingerBands_rd double_round square_bars 3 2
     = Inr [\<lparr>BollingerBandData.time = 3,
              upper = 5436325649948134 / 2 ^ 50,
              middle = 2,
              lower = - (1865452045155277 / 2 ^ 51)\<rparr>]"
    by (simp only: m double_round_sqrt2 double_round_bands)
  have "(5436325649948134 / 2 ^ 50 - 2 :: real) = 6369051672525772 / 2 ^ 51"
    and "(2 - (- (1865452045155277 / 2 ^ 51)) :: real) = 6369051672525773 / 2 ^ 51"
    and "(5436325649948134 / 2 ^ 50 - 2 :: real) \<noteq> 2 - (- (1865452045155277 / 2 ^ 51))"
    by simp_all
  with run show ?thesis by (intro conjI)
qed

text \<open>
  Claim C8, amended: for a positive period \<open>P\<close>, at least \<open>P\<close> bars and every multiplier
  \<open>k\<close>, point \<open>i\<close> of \<open>calculateBollingerBands\<close> has as \<open>middle\<close> the value of point \<open>i\<close>
  of \<open>calculateSMA\<close>, also in rounded arithmetic; \<open>\<sigma>\<close> is the square root of the sum
  of the squared deviations of the closes of the window from \<open>middle\<close>, divided by
  \<open>P\<close> (not by \<open>P - 1\<close>); \<open>upper\<close> is \<open>middle + k * \<sigma>\<close> and \<open>lower\<close> is
  \<open>middle - k * \<sigma>\<close>, each rounded on its own. In exact arithmetic \<open>middle\<close> is the
  mean of the window and \<open>upper - middle = middle - lower = k * \<sigma>\<close>; in doubles the
  two differences agree only up to the rounding of \<open>upper\<close> and \<open>lower\<close>.
\<close>

theorem calculateBollingerBands_rd_spec:
  assumes "0 < P" and "P \<le> length bars"
  shows "\<exists>pts spts. calculateBollingerBands_rd rd bars P k = Inr pts \<and>
           calculateSMA_rd rd bars P = Inr spts \<and>
           length pts = length bars - P + 1 \<and> length spts = length pts \<and>
           (\<forall>i < length pts. \<exists>\<sigma>.
              \<sigma> = rd (sqrt (rd (foldl (\<lambda>s c. rd (s + rd ((rd (close c - middle (pts ! i)))\<^sup>2))) 0
                                      (rev (take P (drop i bars))) / real P))) \<and>
              middle (pts ! i) = value (spts ! i) \<and>
              upper (pts ! i) = rd (middle (pts ! i) + rd (k * \<sigma>)) \<and>
              lower (pts ! i) = rd (middle (pts ! i) - rd (k * \<sigma>)) \<and>
              ((\<forall>x. rd x = x) \<longrightarrow>
                 middle (pts ! i) = (\<Sum>j = i..<i + P. close (bars ! j)) / real P \<and>
                 \<sigma> = sqrt ((\<Sum>j = i..<i + P. (close (bars ! j) - middle (pts ! i))\<^sup>2) / real P) \<and>
                 upper (pts ! i) - middle (pts ! i) = k * \<sigma> \<and>
                 middle (pts ! i) - lower (pts ! i) = k * \<sigma>))"
proof -
  define band where "band = (\<lambda>i.
     let sma = rd (window_sum_rd rd bars P i / real P);
         std = rd (sqrt (rd (squared_diff_sum_rd rd bars P i sma / real P)))
     in \<lparr>BollingerBandData.time = CandleData.time (bars ! i),
          upper = rd (sma + rd (k * std)), middle = sma, lower = rd (sma - rd (k * std))\<rparr>)"
  define pts where "pts = map band [P - 1..<length bars]"
  define spts where "spts = map (\<lambda>i. \<lparr>IndicatorData.time = CandleData.time (bars ! i),
                             value = rd (window_sum_rd rd bars P i / real P)\<rparr>)
                    [P - 1..<length bars]"
  have res: "calculateBollingerBands_rd rd bars P k = Inr pts"
    using assms by (simp add: calculateBollingerBands_rd_def pts_def band_def)
  have sres: "calculateSMA_rd rd bars P = Inr spts"
    using assms by (simp add: calculateSMA_rd_def spts_def)
  have len: "length pts = length bars - P + 1" "length spts = length pts"
    using assms by (simp_all add: pts_def spts_def)
  have pt: "\<exists>\<sigma>.
              \<sigma> = rd (sqrt (rd (foldl (\<lambda>s c. rd (s + rd ((rd (close c - middle (pts ! i)))\<^sup>2))) 0
                                      (rev (take P (drop i bars))) / real P))) \<and>
              middle (pts ! i) = value (spts ! i) \<and>
              upper (pts ! i) = rd (middle (pts ! i) + rd (k * \<sigma>)) \<and>
              lower (pts ! i) = rd (middle (pts ! i) - rd (k * \<sigma>)) \<and>
              ((\<forall>x. rd x = x) \<longrightarrow>
                 middle (pts ! i) = (\<Sum>j = i..<i + P. close (bars ! j)) / real P \<and>
                 \<sigma> = sqrt ((\<Sum>j = i..<i + P. (close (bars ! j) - middle (pts ! i))\<^sup>2) / real P) \<and>
                 upper (pts ! i) - middle (pts ! i) = k * \<sigma> \<and>
                 middle (pts ! i) - lower (pts ! i) = k * \<sigma>)"
    if "i < length pts" for i
  proof -
    define n where "n = P - 1 + i"
    define m where "m = middle (band n)"
    define sd where "sd = rd (sqrt (rd (squared_diff_sum_rd rd bars P n m / real P)))"
    from that have win: "i + P \<le> length bars"
      using len assms by simp
    from that have nth: "pts ! i = band n"
      and snth: "value (spts ! i) = rd (window_sum_rd rd bars P n / real P)"
      using len by (simp_all add: pts_def spts_def n_def)
    have mid: "m = rd (window_sum_rd rd bars P n / real P)"
      by (simp add: m_def band_def Let_def)
    have up: "upper (band n) = rd (m + rd (k * sd))"
      and lo: "lower (band n) = rd (m - rd (k * sd))"
      by (simp_all add: band_def Let_def sd_def mid)
    have sq: "squared_diff_sum_rd rd bars P n m
                = foldl (\<lambda>s c. rd (s + rd ((rd (close c - m))\<^sup>2))) 0 (rev (take P (drop i bars)))"
      unfolding n_def by (rule squared_diff_sum_rd_foldl [OF win])
    have c0: "sd = rd (sqrt (rd (foldl (\<lambda>s c. rd (s + rd ((rd (close c - m))\<^sup>2))) 0
                                      (rev (take P (drop i bars))) / real P)))"
      unfolding sd_def by (simp only: sq)
    have c1: "m = value (spts ! i)"
      unfolding snth by (rule mid)
    have exact: "m = (\<Sum>j = i..<i + P. close (bars ! j)) / real P \<and>
                 sd = sqrt ((\<Sum>j = i..<i + P. (close (bars ! j) - m)\<^sup>2) / real P) \<and>
                 upper (band n) - m = k * sd \<and> m - lower (band n) = k * sd"
      if "\<forall>x. rd x = x"
    proof -
      from that have rd: "rd = (\<lambda>x. x)"
        by (simp add: fun_eq_iff)
      have e1: "m = (\<Sum>j = i..<i + P. close (bars ! j)) / real P"
        unfolding mid n_def using window_sum_forward [OF assms(1), of bars i]
        by (simp add: rd rd_identity)
      have e2: "sd = sqrt ((\<Sum>j = i..<i + P. (close (bars ! j) - m)\<^sup>2) / real P)"
        unfolding sd_def n_def using squared_diff_sum_forward [OF assms(1), of bars i m]
        by (simp add: rd rd_identity)
      from up lo have "upper (band n) - m = k * sd" "m - lower (band n) = k * sd"
        using that by simp_all
      with e1 e2 show ?thesis by blast
    qed
    from c0 c1 up lo exact show ?thesis
      unfolding nth m_def [symmetric] by blast
  qed
  from res sres len pt show ?thesis by blast
qed

theorem calculateBollingerBands_rd_spec_witness:
  "(0::nat) < 2 \<and> 2 \<le> length four_bars \<and> (\<forall>x::real. (\<lambda>x. x) x = x) \<and>
   (\<exists>pts. calculateBollingerBands_rd (\<lambda>x. x) four_bars 2 3 = Inr pts \<and> length pts = 3 \<and>
      (0::nat) < length pts \<and>
      middle (pts ! 0) = 5 / 2 \<and>
      upper (pts ! 0) - middle (pts ! 0) = 3 / 2 \<and>
      middle (pts ! 0) - lower (pts ! 0) = 3 / 2)"
proof -
  have len: "length four_bars = 4"
    by (simp add: four_bars_def rising_bars_def)
  have h: "(0::nat) < 2" "2 \<le> length four_bars"
    using len by simp_all
  from calculateBollingerBands_rd_spec [OF h, of "\<lambda>x. x" 3]
  obtain pts where res: "calculateBollingerBands_rd (\<lambda>x. x) four_bars 2 3 = Inr pts"
    and n': "length pts = length four_bars - 2 + 1"
    and pt': "\<forall>i < length pts. \<exists>\<sigma>.
              ((\<forall>x::real. x = x) \<longrightarrow>
                 middle (pts ! i) = (\<Sum>j = i..<i + 2. close (four_bars ! j)) / real 2 \<and>
                 \<sigma> = sqrt ((\<Sum>j = i..<i + 2. (close (four_bars ! j) - middle (pts ! i))\<^sup>2) / real 2) \<and>
                 upper (pts ! i) - middle (pts ! i) = 3 * \<sigma> \<and>
                 middle (pts ! i) - lower (pts ! i) = 3 * \<sigma>)"
    by blast
  from n' len have n: "length pts = 3" by simp
  with pt' obtain s where mid': "middle (pts ! 0) = (\<Sum>j = 0..<0 + 2. close (four_bars ! j)) / real 2"
    and s: "s = sqrt ((\<Sum>j = 0..<0 + 2. (close (four_bars ! j) - middle (pts ! 0))\<^sup>2) / real 2)"
    and pu: "upper (pts ! 0) - middle (pts ! 0) = 3 * s"
    and pl: "middle (pts ! 0) - lower (pts ! 0) = 3 * s"
    by force
  have root: "sqrt (1 / 4) = 1 / 2"
    by (simp add: real_sqrt_divide)
  have mid: "middle (pts ! 0) = 5 / 2"
    using mid' by (simp add: four_bars_def rising_bars_def candle_def eval_nat_numeral)
  have var: "(\<Sum>j = 0..<0 + 2. (close (four_bars ! j) - middle (pts ! 0))\<^sup>2) / real 2 = 1 / 4"
    unfolding mid
    by (simp add: four_bars_def rising_bars_def candle_def eval_nat_numeral power2_eq_square)
  have "s = 1 / 2"
    using s unfolding var root .
  with pu pl have "upper (pts ! 0) - middle (pts ! 0) = 3 / 2 \<and>
                   middle (pts ! 0) - lower (pts ! 0) = 3 / 2"
    by simp
  with mid res n len show ?thesis by auto
qed

subsection \<open>The VWAP loop\<close>

lemma length_vwap_loop [simp]: "length (vwap_loop a b sq cs) = length cs"
  by (induction cs arbitrary: a b sq) (simp_all add: Let_def)

lemma foldl_add_real: "foldl (+) (s::real) xs = s + sum_list xs"
  by (induction xs arbitrary: s) simp_all

lemma vwap_loop_Cons:
  "vwap_loop a b sq (c # cs) =
     \<lparr>VWAPData.time = CandleData.time c,
      vwap = vwap_of (a + typicalPrice c * volume c) (b + volume c) (typicalPrice c),
      upperBand1 = vwap_of (a + typicalPrice c * volume c) (b + volume c) (typicalPrice c)
        + stdDev_of (sq @ [(typicalPrice c
             - vwap_of (a + typicalPrice c * volume c) (b + volume c) (typicalPrice c))\<^sup>2
             * volume c]) (b + volume c),
      lowerBand1 = vwap_of (a + typicalPrice c * volume c) (b + volume c) (typicalPrice c)
        - stdDev_of (sq @ [(typicalPrice c
             - vwap_of (a + typicalPrice c * volume c) (b + volume c) (typicalPrice c))\<^sup>2
             * volume c]) (b + volume c),
      upperBand2 = vwap_of (a + typicalPrice c * volume c) (b + volume c) (typicalPrice c)
        + 2 * stdDev_of (sq @ [(typicalPrice c
             - vwap_of (a + typicalPrice c * volume c) (b + volume c) (typicalPrice c))\<^sup>2
             * volume c]) (b + volume c),
      lowerBand2 = vwap_of (a + typicalPrice c * volume c) (b + volume c) (typicalPrice c)
        - 2 * stdDev_of (sq @ [(typicalPrice c
             - vwap_of (a + typicalPrice c * volume c) (b + volume c) (typicalPrice c))\<^sup>2
             * volume c]) (b + volume c)\<rparr>
     # vwap_loop (a + typicalPrice c * volume c) (b + volume c)
         (sq @ [(typicalPrice c
             - vwap_of (a + typicalPrice c * volume c) (b + volume c) (typicalPrice c))\<^sup>2
             * volume c]) cs"
  by (simp add: Let_def)

lemma vwap_loop_vwap:
  assumes "i < length cs"
  shows "vwap (vwap_loop a b sq cs ! i)
           = vwap_of (a + (\<Sum>j\<le>i. typicalPrice (cs ! j) * volume (cs ! j)))
                     (b + (\<Sum>j\<le>i. volume (cs ! j)))
                     (typicalPrice (cs ! i))"
  using assms
proof (induction cs arbitrary: a b sq i)
  case Nil
  then show ?case by simp
next
  case (Cons c cs)
  show ?case
  proof (cases i)
    case 0
    then show ?thesis by (simp add: vwap_loop_Cons del: vwap_loop.simps)
  next
    case (Suc k)
    with Cons.prems have k: "k < length cs" by simp
    show ?thesis
      unfolding Suc vwap_loop_Cons
      by (simp add: Cons.IH [OF k] sum.atMost_Suc_shift add.assoc del: sum.atMost_Suc vwap_loop.simps)
  qed
qed

text \<open>The deviations pushed up to bar \<open>i\<close>: each uses the VWAP emitted at its own bar.\<close>

lemma vwap_loop_bands:
  assumes "i < length cs"
  shows "\<exists>sd. sd = stdDev_of
              (sq @ map (\<lambda>j. (typicalPrice (cs ! j) - vwap (vwap_loop a b sq cs ! j))\<^sup>2
                              * volume (cs ! j)) [0..<Suc i])
              (b + (\<Sum>j\<le>i. volume (cs ! j))) \<and>
           upperBand1 (vwap_loop a b sq cs ! i) = vwap (vwap_loop a b sq cs ! i) + sd \<and>
           lowerBand1 (vwap_loop a b sq cs ! i) = vwap (vwap_loop a b sq cs ! i) - sd \<and>
           upperBand2 (vwap_loop a b sq cs ! i) = vwap (vwap_loop a b sq cs ! i) + 2 * sd \<and>
           lowerBand2 (vwap_loop a b sq cs ! i) = vwap (vwap_loop a b sq cs ! i) - 2 * sd"
  using assms
proof (induction cs arbitrary: a b sq i)
  case Nil
  then show ?case by simp
next
  case (Cons c cs)
  show ?case
  proof (cases i)
    case 0
    then show ?thesis by (simp add: vwap_loop_Cons del: vwap_loop.simps)
  next
    case (Suc k)
    with Cons.prems have k: "k < length cs" by simp
    have shift: "map f [0..<Suc (Suc k)] = f 0 # map (\<lambda>j. f (Suc j)) [0..<Suc k]" for f :: "nat \<Rightarrow> real"
      by (simp only: upt_conv_Cons [of 0 "Suc (Suc k)"] map_Suc_upt [symmetric]) (simp add: comp_def)
    show ?thesis
      unfolding Suc vwap_loop_Cons shift
      using Cons.IH [OF k]
      by (simp add: sum.atMost_Suc_shift add.assoc del: sum.atMost_Suc vwap_loop.simps upt_Suc)
  qed
qed

subsection \<open>C9: the typical price as fallback of the VWAP\<close>

text \<open>
  Claim C9. Whenever the cumulative volume up to bar \<open>i\<close> is zero, the \<open>vwap\<close> that
  \<open>calculateVWAP\<close> emits at bar \<open>i\<close> is that bar's typical price
  \<open>(high + low + close) / 3\<close>; in particular a single bar of volume zero yields one
  point with that value.
\<close>

theorem calculateVWAP_fallback:
  "(i < length bars \<and> (\<Sum>j\<le>i. volume (bars ! j)) = 0 \<longrightarrow>
      vwap (calculateVWAP bars ! i)
        = (high (bars ! i) + low (bars ! i) + close (bars ! i)) / 3) \<and>
   (volume b = 0 \<longrightarrow>
      length (calculateVWAP [b]) = 1 \<and>
      vwap (calculateVWAP [b] ! 0) = (high b + low b + close b) / 3)"
proof (rule conjI; rule impI)
  assume a: "i < length bars \<and> (\<Sum>j\<le>i. volume (bars ! j)) = 0"
  then have "calculateVWAP bars = vwap_loop 0 0 [] bars"
    by (auto simp: calculateVWAP_def)
  with a show "vwap (calculateVWAP bars ! i)
        = (high (bars ! i) + low (bars ! i) + close (bars ! i)) / 3"
    by (simp add: vwap_loop_vwap vwap_of_def typicalPrice_def)
next
  assume "volume b = 0"
  then show "length (calculateVWAP [b]) = 1 \<and>
      vwap (calculateVWAP [b] ! 0) = (high b + low b + close b) / 3"
    by (simp add: calculateVWAP_def Let_def vwap_of_def typicalPrice_def)
qed

theorem calculateVWAP_fallback_witness:
  "(0::nat) < length [idle_bar] \<and> (\<Sum>j\<le>(0::nat). volume ([idle_bar] ! j)) = 0 \<and>
   volume idle_bar = 0 \<and>
   length (calculateVWAP [idle_bar]) = 1 \<and>
   vwap (calculateVWAP [idle_bar] ! 0) = 5"
proof -
  have h: "volume idle_bar = 0"
    by (simp add: idle_bar_def candle_def)
  have "(high idle_bar + low idle_bar + close idle_bar) / 3 = 5"
    by (simp add: idle_bar_def candle_def)
  with calculateVWAP_fallback [of 0 "[idle_bar]" idle_bar] h show ?thesis
    by simp
qed

subsection \<open>C1: the deviation bands of the VWAP\<close>

text \<open>
  Claim C1, as stated: the standard deviation displayed at bar \<open>i\<close> is
  \<open>sqrt (S / V)\<close> with \<open>V\<close> the cumulative volume and \<open>S\<close> the sum over \<open>j \<le> i\<close> of
  \<open>(typicalPrice j - vwap i)\<^sup>2 * volume j\<close>, the deviations being taken from the
  current VWAP. This fails on two bars of volume 1 with typical prices 1 and 3: the
  VWAP at the second bar is 2, the code displays \<open>sqrt (1 / 2)\<close>, the formula of the
  claim gives \<open>sqrt (2 / 2) = 1\<close>.
\<close>

theorem calculateVWAP_current_vwap_counterexample:
  "vwap (calculateVWAP two_bars ! 1) = 2 \<and>
   upperBand1 (calculateVWAP two_bars ! 1) - vwap (calculateVWAP two_bars ! 1) = sqrt (1 / 2) \<and>
   sqrt (((typicalPrice (two_bars ! 0) - vwap (calculateVWAP two_bars ! 1))\<^sup>2 * volume (two_bars ! 0)
          + (typicalPrice (two_bars ! 1) - vwap (calculateVWAP two_bars ! 1))\<^sup>2 * volume (two_bars ! 1))
         / (volume (two_bars ! 0) + volume (two_bars ! 1))) = 1 \<and>
   upperBand1 (calculateVWAP two_bars ! 1) - vwap (calculateVWAP two_bars ! 1)
     \<noteq> sqrt (((typicalPrice (two_bars ! 0) - vwap (calculateVWAP two_bars ! 1))\<^sup>2 * volume (two_bars ! 0)
          + (typicalPrice (two_bars ! 1) - vwap (calculateVWAP two_bars ! 1))\<^sup>2 * volume (two_bars ! 1))
         / (volume (two_bars ! 0) + volume (two_bars ! 1)))"
proof -
  have v: "vwap (calculateVWAP two_bars ! 1) = 2"
    by (simp add: calculateVWAP_def two_bars_def candle_def Let_def vwap_of_def typicalPrice_def)
  have u: "upperBand1 (calculateVWAP two_bars ! 1) - vwap (calculateVWAP two_bars ! 1) = sqrt (1 / 2)"
    by (simp add: calculateVWAP_def two_bars_def candle_def Let_def vwap_of_def typicalPrice_def
        stdDev_of_def)
  have c: "sqrt (((typicalPrice (two_bars ! 0) - vwap (calculateVWAP two_bars ! 1))\<^sup>2 * volume (two_bars ! 0)
          + (typicalPrice (two_bars ! 1) - vwap (calculateVWAP two_bars ! 1))\<^sup>2 * volume (two_bars ! 1))
         / (volume (two_bars ! 0) + volume (two_bars ! 1))) = 1"
    unfolding v by (simp add: two_bars_def candle_def typicalPrice_def)
  have "sqrt (1 / 2) \<noteq> 1"
  proof
    assume "sqrt (1 / 2) = 1"
    then have "(1 / 2 :: real) = 1"
      by (simp only: real_sqrt_eq_1_iff)
    then show False by simp
  qed
  with v u c show ?thesis by simp
qed

text \<open>
  Claim C1, amended: each bar \<open>j\<close> contributes \<open>(typicalPrice j - vwap j)\<^sup>2 * volume j\<close>
  with the VWAP emitted at its own bar \<open>j\<close>, and a term once pushed is not recomputed.
  With \<open>S\<close> the sum of these terms over \<open>j \<le> i\<close> and \<open>V\<close> the cumulative volume, the
  standard deviation at bar \<open>i\<close> is \<open>sqrt (S / V)\<close> when \<open>V > 0\<close> and 0 otherwise, and
  the four bands lie one and two such deviations from the VWAP. The volumes are
  taken non-negative, as the data model has them, so that no square root of a
  negative number is involved.
\<close>

theorem calculateVWAP_stdDev:
  assumes "i < length bars" and "\<forall>c \<in> set bars. 0 \<le> volume c"
  shows "\<exists>sd V S.
           V = (\<Sum>j\<le>i. volume (bars ! j)) \<and>
           S = (\<Sum>j\<le>i. (typicalPrice (bars ! j) - vwap (calculateVWAP bars ! j))\<^sup>2
                          * volume (bars ! j)) \<and>
           0 \<le> V \<and> 0 \<le> S \<and>
           sd = (if V > 0 then sqrt (S / V) else 0) \<and>
           upperBand1 (calculateVWAP bars ! i) = vwap (calculateVWAP bars ! i) + sd \<and>
           lowerBand1 (calculateVWAP bars ! i) = vwap (calculateVWAP bars ! i) - sd \<and>
           upperBand2 (calculateVWAP bars ! i) = vwap (calculateVWAP bars ! i) + 2 * sd \<and>
           lowerBand2 (calculateVWAP bars ! i) = vwap (calculateVWAP bars ! i) - 2 * sd"
proof -
  define out where "out = calculateVWAP bars"
  define V where "V = (\<Sum>j\<le>i. volume (bars ! j))"
  define S where "S = (\<Sum>j\<le>i. (typicalPrice (bars ! j) - vwap (out ! j))\<^sup>2 * volume (bars ! j))"
  define sd where "sd = (if V > 0 then sqrt (S / V) else 0)"
  have run: "out = vwap_loop 0 0 [] bars"
    using assms(1) by (auto simp: out_def calculateVWAP_def)
  have vol: "0 \<le> volume (bars ! j)" if "j \<le> i" for j
    using that assms by simp
  have V0: "0 \<le> V"
    unfolding V_def by (rule sum_nonneg) (use vol in simp)
  have S0: "0 \<le> S"
    unfolding S_def by (rule sum_nonneg) (use vol in simp)
  have "sum_list (map (\<lambda>j. (typicalPrice (bars ! j) - vwap (out ! j))\<^sup>2 * volume (bars ! j))
                      [0..<Suc i]) = S"
    unfolding S_def
    by (simp only: interv_sum_list_conv_sum_set_nat set_upt atLeast0LessThan lessThan_Suc_atMost)
  then have "stdDev_of ([] @ map (\<lambda>j. (typicalPrice (bars ! j) - vwap (out ! j))\<^sup>2
                              * volume (bars ! j)) [0..<Suc i]) (0 + V) = sd"
    by (simp add: stdDev_of_def foldl_add_real sd_def Let_def del: upt_Suc)
  with vwap_loop_bands [OF assms(1), of "[]" 0 0]
  have "upperBand1 (out ! i) = vwap (out ! i) + sd \<and>
        lowerBand1 (out ! i) = vwap (out ! i) - sd \<and>
        upperBand2 (out ! i) = vwap (out ! i) + 2 * sd \<and>
        lowerBand2 (out ! i) = vwap (out ! i) - 2 * sd"
    unfolding run [symmetric] V_def [symmetric] by simp
  with V0 S0 show ?thesis
    unfolding out_def [symmetric] using V_def S_def sd_def by blast
qed

theorem calculateVWAP_stdDev_witness:
  "(1::nat) < length two_bars \<and>
   0 \<le> volume (two_bars ! 0) \<and> 0 \<le> volume (two_bars ! 1) \<and>
   upperBand1 (calculateVWAP two_bars ! 1) = 2 + sqrt (1 / 2) \<and>
   lowerBand1 (calculateVWAP two_bars ! 1) = 2 - sqrt (1 / 2) \<and>
   upperBand2 (calculateVWAP two_bars ! 1) = 2 + 2 * sqrt (1 / 2) \<and>
   lowerBand2 (calculateVWAP two_bars ! 1) = 2 - 2 * sqrt (1 / 2)"
proof -
  have h1: "(1::nat) < length two_bars"
    by (simp add: two_bars_def)
  have h2: "\<forall>c \<in> set two_bars. 0 \<le> volume c"
    by (simp add: two_bars_def candle_def)
  define out where "out = calculateVWAP two_bars"
  have v0: "vwap (out ! 0) = 1"
    by (simp add: out_def calculateVWAP_def two_bars_def candle_def Let_def vwap_of_def
        typicalPrice_def)
  have v1: "vwap (out ! Suc 0) = 2"
    by (simp add: out_def calculateVWAP_def two_bars_def candle_def Let_def vwap_of_def
        typicalPrice_def)
  have V: "(\<Sum>j\<le>(1::nat). volume (two_bars ! j)) = 2"
    by (simp add: two_bars_def candle_def)
  have S: "(\<Sum>j\<le>(1::nat). (typicalPrice (two_bars ! j) - vwap (out ! j))\<^sup>2
                          * volume (two_bars ! j)) = 1"
    by (simp add: v0 v1 two_bars_def candle_def typicalPrice_def)
  from calculateVWAP_stdDev [OF h1 h2, folded out_def]
  obtain sd where "sd = (if (2::real) > 0 then sqrt (1 / 2) else 0)"
    and "upperBand1 (out ! 1) = vwap (out ! 1) + sd"
    and "lowerBand1 (out ! 1) = vwap (out ! 1) - sd"
    and "upperBand2 (out ! 1) = vwap (out ! 1) + 2 * sd"
    and "lowerBand2 (out ! 1) = vwap (out ! 1) - 2 * sd"
    unfolding V S by blast
  then show ?thesis
    unfolding out_def [symmetric] using h1 h2 v1 by (simp add: two_bars_def)
qed

subsection \<open>C10: cumulative volume delta\<close>

lemma length_cvd_loop [simp]: "length (cvd_loop a cs) = length cs"
  by (induction cs arbitrary: a) (simp_all add: Let_def)

lemma cvd_loop_Cons:
  "cvd_loop a (c # cs) =
     \<lparr>CVDData.time = CandleData.time c,
      cvd = a + (buyVolume c - sellVolume c),
      delta = buyVolume c - sellVolume c\<rparr>
     # cvd_loop (a + (buyVolume c - sellVolume c)) cs"
  by (simp add: Let_def)

lemma cvd_loop_nth:
  assumes "i < length cs"
  shows "CVDData.delta (cvd_loop a cs ! i) = buyVolume (cs ! i) - sellVolume (cs ! i) \<and>
         cvd (cvd_loop a cs ! i) = a + (\<Sum>j\<le>i. buyVolume (cs ! j) - sellVolume (cs ! j))"
  using assms
proof (induction cs arbitrary: a i)
  case Nil
  then show ?case by simp
next
  case (Cons c cs)
  show ?case
  proof (cases i)
    case 0
    then show ?thesis by (simp add: cvd_loop_Cons del: cvd_loop.simps)
  next
    case (Suc k)
    with Cons.prems have k: "k < length cs" by simp
    show ?thesis
      unfolding Suc cvd_loop_Cons
      by (simp add: Cons.IH [OF k] sum.atMost_Suc_shift add.assoc
          del: sum.atMost_Suc cvd_loop.simps)
  qed
qed

text \<open>
  Claim C10. For bar \<open>i\<close> of a sequence passed to \<open>calculateCVD\<close>, with
  \<open>closePosition = (close - low) / (high - low)\<close> when \<open>high > low\<close> and \<open>0.5\<close> when
  \<open>high = low\<close>, \<open>buyVolume = volume * closePosition\<close> and
  \<open>sellVolume = volume * (1 - closePosition)\<close>: the emitted \<open>delta\<close> is
  \<open>buyVolume - sellVolume\<close>, \<open>buyVolume + sellVolume\<close> is the volume, and the emitted
  \<open>cvd\<close> is the sum of the deltas emitted for the bars \<open>0, \<dots>, i\<close>.
\<close>

theorem calculateCVD_spec:
  assumes "i < length bars"
  shows "length (calculateCVD bars) = length bars \<and>
         (high (bars ! i) > low (bars ! i) \<longrightarrow>
            closePosition (bars ! i)
              = (close (bars ! i) - low (bars ! i)) / (high (bars ! i) - low (bars ! i))) \<and>
         (high (bars ! i) = low (bars ! i) \<longrightarrow> closePosition (bars ! i) = 0.5) \<and>
         buyVolume (bars ! i) = volume (bars ! i) * closePosition (bars ! i) \<and>
         sellVolume (bars ! i) = volume (bars ! i) * (1 - closePosition (bars ! i)) \<and>
         CVDData.delta (calculateCVD bars ! i) = buyVolume (bars ! i) - sellVolume (bars ! i) \<and>
         buyVolume (bars ! i) + sellVolume (bars ! i) = volume (bars ! i) \<and>
         cvd (calculateCVD bars ! i) = (\<Sum>j\<le>i. CVDData.delta (calculateCVD bars ! j))"
proof -
  have run: "calculateCVD bars = cvd_loop 0 bars"
    using assms by (auto simp: calculateCVD_def)
  have len: "length (calculateCVD bars) = length bars"
    by (simp add: run)
  have pos: "high (bars ! i) > low (bars ! i) \<longrightarrow>
            closePosition (bars ! i)
              = (close (bars ! i) - low (bars ! i)) / (high (bars ! i) - low (bars ! i))"
    by (simp add: closePosition_def Let_def)
  have flat: "high (bars ! i) = low (bars ! i) \<longrightarrow> closePosition (bars ! i) = 0.5"
    by (simp add: closePosition_def Let_def)
  have total: "buyVolume (bars ! i) + sellVolume (bars ! i) = volume (bars ! i)"
    by (simp add: buyVolume_def sellVolume_def algebra_simps)
  have d: "CVDData.delta (calculateCVD bars ! j) = buyVolume (bars ! j) - sellVolume (bars ! j)"
    if "j \<le> i" for j
    using that assms by (simp add: run cvd_loop_nth)
  have "cvd (calculateCVD bars ! i) = (\<Sum>j\<le>i. buyVolume (bars ! j) - sellVolume (bars ! j))"
    using assms by (simp add: run cvd_loop_nth)
  also have "\<dots> = (\<Sum>j\<le>i. CVDData.delta (calculateCVD bars ! j))"
    by (rule sum.cong) (simp_all add: d)
  finally have c: "cvd (calculateCVD bars ! i) = (\<Sum>j\<le>i. CVDData.delta (calculateCVD bars ! j))" .
  from len pos flat total d [of i] c show ?thesis
    by (simp add: buyVolume_def sellVolume_def)
qed

theorem calculateCVD_spec_witness:
  "(1::nat) < length four_bars \<and> high (four_bars ! 1) > low (four_bars ! 1) \<and>
   closePosition (four_bars ! 1) = 1 / 2 \<and>
   CVDData.delta (calculateCVD four_bars ! 1) = 0 \<and>
   cvd (calculateCVD four_bars ! 1) = 10 \<and>
   (0::nat) < length two_bars \<and> high (two_bars ! 0) = low (two_bars ! 0) \<and>
   closePosition (two_bars ! 0) = 0.5 \<and>
   buyVolume (two_bars ! 0) + sellVolume (two_bars ! 0) = 1"
proof -
  have h1: "(1::nat) < length four_bars"
    by (simp add: four_bars_def rising_bars_def)
  have h2: "(0::nat) < length two_bars"
    by (simp add: two_bars_def)
  have r: "high (four_bars ! 1) > low (four_bars ! 1)"
    by (simp add: four_bars_def rising_bars_def candle_def)
  have f: "high (two_bars ! 0) = low (two_bars ! 0)" "volume (two_bars ! 0) = 1"
    by (simp_all add: two_bars_def candle_def)
  have d0: "CVDData.delta (calculateCVD four_bars ! 0) = 10"
    by (simp add: calculateCVD_def four_bars_def rising_bars_def candle_def Let_def
        buyVolume_def sellVolume_def closePosition_def)
  from calculateCVD_spec [OF h1] r
  have cp: "closePosition (four_bars ! 1) = 1 / 2"
    by (simp add: four_bars_def rising_bars_def candle_def)
  from calculateCVD_spec [OF h1]
  have "CVDData.delta (calculateCVD four_bars ! 1)
          = volume (four_bars ! 1) * closePosition (four_bars ! 1)
            - volume (four_bars ! 1) * (1 - closePosition (four_bars ! 1))"
    by simp
  then have d1: "CVDData.delta (calculateCVD four_bars ! 1) = 0"
    unfolding cp by simp
  from calculateCVD_spec [OF h1]
  have "cvd (calculateCVD four_bars ! 1) = (\<Sum>j\<le>(1::nat). CVDData.delta (calculateCVD four_bars ! j))"
    by blast
  then have c: "cvd (calculateCVD four_bars ! 1) = 10"
    using d0 d1 by simp
  from calculateCVD_spec [OF h2] f
  have "closePosition (two_bars ! 0) = 0.5 \<and>
        buyVolume (two_bars ! 0) + sellVolume (two_bars ! 0) = 1"
    by simp
  with h1 h2 r f cp d1 c show ?thesis by simp
qed

subsection \<open>The footprint loops\<close>

lemma map_upt_Suc_shift:
  "map f [0..<Suc n] = f 0 # map (\<lambda>j. f (Suc j)) [0..<n]"
  by (simp only: upt_conv_Cons [of 0 "Suc n"] map_Suc_upt [symmetric]) (simp add: comp_def)

lemma level_loop_levels:
  "fst (level_loop rnd c N is (lvls, tb, ta, mv, poc, k))
     = lvls @ map (\<lambda>j. footprint_level c N (is ! j) (rnd (k + j))) [0..<length is]"
proof (induction "is" arbitrary: lvls tb ta mv poc k)
  case Nil
  then show ?case by simp
next
  case (Cons i "is")
  show ?case
    unfolding level_loop.simps Let_def Cons.IH length_Cons map_upt_Suc_shift
    by simp
qed

lemma level_loop_draws:
  "snd (snd (snd (snd (snd (level_loop rnd c N is (lvls, tb, ta, mv, poc, k))))))
     = k + length is"
proof (induction "is" arbitrary: lvls tb ta mv poc k)
  case Nil
  then show ?case by simp
next
  case (Cons i "is")
  show ?case
    unfolding level_loop.simps Let_def Cons.IH by simp
qed

lemma footprint_loop_flat:
  "high c - low c = 0 \<Longrightarrow> footprint_loop rnd N k (c # cs) = footprint_loop rnd N k cs"
  by simp

lemma footprint_loop_wide:
  assumes "high c - low c \<noteq> 0"
  shows "\<exists>fc. footprint_loop rnd N k (c # cs)
                 = (fc # fst (footprint_loop rnd N (k + N) cs),
                    snd (footprint_loop rnd N (k + N) cs)) \<and>
              FootprintCandle.time fc = CandleData.time c \<and>
              levels fc = map (\<lambda>i. footprint_level c N i (rnd (k + i))) [0..<N]"
proof -
  obtain lvls tb ta mv poc k'
    where st: "level_loop rnd c N [0..<N] ([], 0, 0, 0, (high c + low c) / 2, k)
                 = (lvls, tb, ta, mv, poc, k')"
    by (metis prod_cases3)
  have "lvls = map (\<lambda>j. footprint_level c N ([0..<N] ! j) (rnd (k + j))) [0..<length [0..<N]]"
    using level_loop_levels [of rnd c N "[0..<N]" "[]" 0 0 0 "(high c + low c) / 2" k]
    by (simp add: st)
  then have l: "lvls = map (\<lambda>i. footprint_level c N i (rnd (k + i))) [0..<N]"
    by simp
  have k': "k' = k + N"
    using level_loop_draws [of rnd c N "[0..<N]" "[]" 0 0 0 "(high c + low c) / 2" k]
    by (simp add: st)
  show ?thesis
    using assms by (simp add: st l [symmetric] k' split: prod.split)
qed

lemma footprint_loop_shape:
  "length (fst (footprint_loop rnd N k cs)) = length (filter wide cs) \<and>
   snd (footprint_loop rnd N k cs) = k + N * length (filter wide cs)"
proof (induction cs arbitrary: k)
  case Nil
  then show ?case by simp
next
  case (Cons c cs)
  show ?case
  proof (cases "wide c")
    case False
    then show ?thesis
      using Cons.IH [of k] by simp
  next
    case True
    from footprint_loop_wide [OF True, of rnd N k cs] obtain fc where
      "footprint_loop rnd N k (c # cs)
         = (fc # fst (footprint_loop rnd N (k + N) cs), snd (footprint_loop rnd N (k + N) cs))"
      by blast
    then show ?thesis
      using Cons.IH [of "k + N"] True by simp
  qed
qed

lemma footprint_loop_nth:
  assumes "j < length (filter wide cs)"
  shows "FootprintCandle.time (fst (footprint_loop rnd N k cs) ! j)
           = CandleData.time (filter wide cs ! j) \<and>
         levels (fst (footprint_loop rnd N k cs) ! j)
           = map (\<lambda>i. footprint_level (filter wide cs ! j) N i (rnd (k + j * N + i))) [0..<N]"
  using assms
proof (induction cs arbitrary: k j)
  case Nil
  then show ?case by simp
next
  case (Cons c cs)
  show ?case
  proof (cases "wide c")
    case False
    then show ?thesis
      using Cons.IH [of j k] Cons.prems by simp
  next
    case True
    from footprint_loop_wide [OF True, of rnd N k cs] obtain fc where
      run: "footprint_loop rnd N k (c # cs)
         = (fc # fst (footprint_loop rnd N (k + N) cs), snd (footprint_loop rnd N (k + N) cs))"
      and fc: "FootprintCandle.time fc = CandleData.time c"
        "levels fc = map (\<lambda>i. footprint_level c N i (rnd (k + i))) [0..<N]"
      by blast
    show ?thesis
    proof (cases j)
      case 0
      then show ?thesis
        using True fc by (simp add: run del: footprint_loop.simps)
    next
      case (Suc j')
      with Cons.prems True have "j' < length (filter wide cs)" by simp
      from Cons.IH [OF this, of "k + N"] show ?thesis
        using True by (simp add: run Suc ac_simps del: footprint_loop.simps)
    qed
  qed
qed

subsection \<open>C2: one draw of noise per level\<close>

lemma footprint_level_volumes:
  "bidVolume (footprint_level c N i r) = levelVolume c N i * bidRatio c N i * (0.9 + r * 0.2)"
  "askVolume (footprint_level c N i r) = levelVolume c N i * askRatio c N i * (0.9 + r * 0.2)"
  "imbalance (footprint_level c N i r)
     = classify (levelVolume c N i * bidRatio c N i * (0.9 + r * 0.2))
                (levelVolume c N i * askRatio c N i * (0.9 + r * 0.2))"
  by (simp_all add: footprint_level_def Let_def)

text \<open>
  Claim C2, as stated: the bid volume and the ask volume of one level are scaled by
  two independent draws from the random source. This fails on one bar with one
  level and a source whose first draw is 0 and whose second draw is 1/2: both
  volumes carry the factor \<open>0.9\<close> of the first draw, the ask volume does not carry
  the factor \<open>1.0\<close> of the second, and the call has made one draw when it returns.
\<close>

theorem calculateFootprint_independent_noise_counterexample:
  "bidVolume (levels (fst (calculateFootprint first_zero 0 [wide_bar] 1) ! 0) ! 0)
     = levelVolume wide_bar 1 0 * bidRatio wide_bar 1 0 * (0.9 + first_zero 0 * 0.2) \<and>
   askVolume (levels (fst (calculateFootprint first_zero 0 [wide_bar] 1) ! 0) ! 0)
     = levelVolume wide_bar 1 0 * askRatio wide_bar 1 0 * (0.9 + first_zero 0 * 0.2) \<and>
   askVolume (levels (fst (calculateFootprint first_zero 0 [wide_bar] 1) ! 0) ! 0)
     \<noteq> levelVolume wide_bar 1 0 * askRatio wide_bar 1 0 * (0.9 + first_zero 1 * 0.2) \<and>
   snd (calculateFootprint first_zero 0 [wide_bar] 1) = 1"
proof -
  have w: "wide wide_bar"
    by (simp add: wide_bar_def candle_def)
  have lv: "levels (fst (calculateFootprint first_zero 0 [wide_bar] 1) ! 0)
              = [footprint_level wide_bar 1 0 (first_zero 0)]"
    using footprint_loop_nth [of 0 "[wide_bar]" first_zero 1 0] w
    by (simp add: calculateFootprint_def del: footprint_loop.simps)
  have dr: "snd (calculateFootprint first_zero 0 [wide_bar] 1) = 1"
    using footprint_loop_shape [of first_zero 1 0 "[wide_bar]"] w
    by (simp add: calculateFootprint_def del: footprint_loop.simps)
  have ne: "levelVolume wide_bar 1 0 * askRatio wide_bar 1 0 * (0.9 + first_zero 0 * 0.2)
              \<noteq> levelVolume wide_bar 1 0 * askRatio wide_bar 1 0 * (0.9 + first_zero 1 * 0.2)"
    by (simp add: levelVolume_def levelPrice_def askRatio_def positionFactor_def first_zero_def
        wide_bar_def candle_def Let_def)
  show ?thesis
    unfolding lv using ne dr by (simp add: footprint_level_volumes)
qed

text \<open>
  Claim C2, amended: for every bar with nonzero range and every level, the source
  makes one draw \<open>r\<close> and the one factor \<open>noise = 0.9 + 0.2 r\<close>, which lies in
  \<open>[0.9, 1.1)\<close> for a draw in \<open>[0, 1)\<close>, multiplies both the bid volume and the ask
  volume of the level. The draw of level \<open>i\<close> of the \<open>j\<close>-th bar with nonzero range is
  draw number \<open>j * N + i\<close> of the call, which makes \<open>N\<close> draws for each such bar.
\<close>

theorem calculateFootprint_shared_noise:
  assumes "j < length (filter wide candles)" and "i < N"
  shows "\<exists>noise. noise = 0.9 + rnd (k + j * N + i) * 0.2 \<and>
           (0 \<le> rnd (k + j * N + i) \<and> rnd (k + j * N + i) < 1 \<longrightarrow> 0.9 \<le> noise \<and> noise < 1.1) \<and>
           length (fst (calculateFootprint rnd k candles N)) = length (filter wide candles) \<and>
           snd (calculateFootprint rnd k candles N) = k + N * length (filter wide candles) \<and>
           FootprintCandle.time (fst (calculateFootprint rnd k candles N) ! j)
             = CandleData.time (filter wide candles ! j) \<and>
           length (levels (fst (calculateFootprint rnd k candles N) ! j)) = N \<and>
           bidVolume (levels (fst (calculateFootprint rnd k candles N) ! j) ! i)
             = levelVolume (filter wide candles ! j) N i * bidRatio (filter wide candles ! j) N i
                 * noise \<and>
           askVolume (levels (fst (calculateFootprint rnd k candles N) ! j) ! i)
             = levelVolume (filter wide candles ! j) N i * askRatio (filter wide candles ! j) N i
                 * noise"
proof -
  define noise where "noise = 0.9 + rnd (k + j * N + i) * 0.2"
  have bounds: "0 \<le> rnd (k + j * N + i) \<and> rnd (k + j * N + i) < 1 \<longrightarrow> 0.9 \<le> noise \<and> noise < 1.1"
    by (simp add: noise_def)
  note shape = footprint_loop_shape [of rnd N k candles]
  note nth = footprint_loop_nth [OF assms(1), of rnd N k]
  from nth assms(2)
  have lvl: "levels (fst (calculateFootprint rnd k candles N) ! j) ! i
               = footprint_level (filter wide candles ! j) N i (rnd (k + j * N + i))"
    and len: "length (levels (fst (calculateFootprint rnd k candles N) ! j)) = N"
    by (simp_all add: calculateFootprint_def)
  have t: "FootprintCandle.time (fst (calculateFootprint rnd k candles N) ! j)
             = CandleData.time (filter wide candles ! j)"
    using nth by (simp add: calculateFootprint_def)
  have n: "length (fst (calculateFootprint rnd k candles N)) = length (filter wide candles)"
    and d: "snd (calculateFootprint rnd k candles N) = k + N * length (filter wide candles)"
    using shape by (simp_all add: calculateFootprint_def)
  have b: "bidVolume (levels (fst (calculateFootprint rnd k candles N) ! j) ! i)
             = levelVolume (filter wide candles ! j) N i * bidRatio (filter wide candles ! j) N i
                 * noise"
    and a: "askVolume (levels (fst (calculateFootprint rnd k candles N) ! j) ! i)
             = levelVolume (filter wide candles ! j) N i * askRatio (filter wide candles ! j) N i
                 * noise"
    unfolding lvl footprint_level_volumes noise_def by (rule refl)+
  from noise_def bounds n d t len b a show ?thesis
    by (intro exI [of _ noise] conjI)
qed

theorem calculateFootprint_shared_noise_witness:
  "(0::nat) < length (filter wide [wide_bar]) \<and> (1::nat) < 2 \<and>
   0 \<le> first_zero (0 + 0 * 2 + 1) \<and> first_zero (0 + 0 * 2 + 1) < 1 \<and>
   snd (calculateFootprint first_zero 0 [wide_bar] 2) = 2 \<and>
   bidVolume (levels (fst (calculateFootprint first_zero 0 [wide_bar] 2) ! 0) ! 1) = 0.925 \<and>
   askVolume (levels (fst (calculateFootprint first_zero 0 [wide_bar] 2) ! 0) ! 1) = 1.075"
proof -
  have "wide wide_bar"
    by (simp add: wide_bar_def candle_def)
  then have w: "filter wide [wide_bar] = [wide_bar]"
    by simp
  have h1: "(0::nat) < length (filter wide [wide_bar])"
    unfolding w by simp
  have h2: "(1::nat) < 2"
    by simp
  have r: "0 \<le> first_zero (0 + 0 * 2 + 1) \<and> first_zero (0 + 0 * 2 + 1) < 1"
    by (simp add: first_zero_def)
  have b: "levelVolume wide_bar 2 1 * bidRatio wide_bar 2 1 * (0.9 + first_zero (0 + 0 * 2 + 1) * 0.2)
             = 0.925"
    by (simp add: levelVolume_def levelPrice_def bidRatio_def positionFactor_def first_zero_def
        wide_bar_def candle_def Let_def)
  have a: "levelVolume wide_bar 2 1 * askRatio wide_bar 2 1 * (0.9 + first_zero (0 + 0 * 2 + 1) * 0.2)
             = 1.075"
    by (simp add: levelVolume_def levelPrice_def askRatio_def positionFactor_def first_zero_def
        wide_bar_def candle_def Let_def)
  from calculateFootprint_shared_noise [OF h1 h2, of first_zero 0]
  have "snd (calculateFootprint first_zero 0 [wide_bar] 2) = 2 \<and>
   bidVolume (levels (fst (calculateFootprint first_zero 0 [wide_bar] 2) ! 0) ! 1) = 0.925 \<and>
   askVolume (levels (fst (calculateFootprint first_zero 0 [wide_bar] 2) ! 0) ! 1) = 1.075"
    unfolding w using a b by simp
  with h1 h2 r show ?thesis by blast
qed

subsection \<open>C3: every level is neutral\<close>

lemma positionFactor_eq:
  assumes "wide c" and "i < N"
  shows "positionFactor c N i = (real i + 0.5) / real N"
  using assms by (simp add: positionFactor_def levelPrice_def Let_def field_simps)

lemma positionFactor_bounds:
  assumes "wide c" and "i < N"
  shows "0 < positionFactor c N i \<and> positionFactor c N i < 1"
proof -
  from assms(2) have "real i + 0.5 < real N" "0 < real N"
    by simp_all
  then show ?thesis
    unfolding positionFactor_eq [OF assms] by simp
qed

lemma ratio_bounds:
  assumes "wide c" and "i < N"
  shows "0.35 \<le> bidRatio c N i \<and> bidRatio c N i \<le> 0.65 \<and>
         0.35 \<le> askRatio c N i \<and> askRatio c N i \<le> 0.65"
  using positionFactor_bounds [OF assms] by (simp add: bidRatio_def askRatio_def)

lemma levelVolume_nonneg:
  assumes "0 \<le> volume c"
  shows "0 \<le> levelVolume c N i"
  using assms by (simp add: levelVolume_def Let_def)

lemma classify_scaled:
  assumes "0 \<le> m" and "0.35 \<le> b" and "b \<le> 0.65" and "0.35 \<le> a" and "a \<le> (0.65::real)"
  shows "classify (m * b) (m * a) = Neutral"
proof -
  have "a \<le> b * 3" "b \<le> a * 3"
    using assms by simp_all
  then have "m * a \<le> m * (b * 3)" "m * b \<le> m * (a * 3)"
    using assms(1) by (simp_all add: mult_left_mono)
  then show ?thesis
    by (simp add: classify_def mult.assoc)
qed

lemma footprint_level_neutral:
  assumes "wide c" and "i < N" and "0 \<le> volume c" and "0 \<le> r"
  shows "imbalance (footprint_level c N i r) = Neutral"
proof -
  define m where "m = levelVolume c N i * (0.9 + r * 0.2)"
  have m: "0 \<le> m"
    unfolding m_def using levelVolume_nonneg [OF assms(3), of N i] assms(4) by simp
  have "imbalance (footprint_level c N i r)
          = classify (m * bidRatio c N i) (m * askRatio c N i)"
    by (simp add: footprint_level_volumes m_def ac_simps)
  also have "\<dots> = Neutral"
    using ratio_bounds [OF assms(1,2)] m by (intro classify_scaled) simp_all
  finally show ?thesis .
qed

text \<open>
  Claim C3. For every sequence of bars (with non-negative volumes, as the data model
  has them), every random source (with draws in \<open>[0, 1)\<close>, as \<^verbatim>\<open>Math.random\<close>
  has them), every starting point in the source and every level count, every level
  of every bar that \<open>calculateFootprint\<close> emits has \<open>imbalance = Neutral\<close>: the position
  factor of level \<open>i\<close> is \<open>(i + 0.5) / N\<close>, strictly between 0 and 1, both ratios lie in
  \<open>[0.35, 0.65]\<close>, and the two volumes are the ratios scaled by one non-negative
  factor, so that neither exceeds three times the other.
\<close>

theorem calculateFootprint_neutral:
  assumes "\<forall>c \<in> set candles. 0 \<le> volume c" and "\<forall>n. 0 \<le> rnd n \<and> rnd n < 1"
  shows "\<forall>fc \<in> set (fst (calculateFootprint rnd k candles N)).
           \<forall>lvl \<in> set (levels fc). imbalance lvl = Neutral"
proof (intro ballI)
  fix fc lvl
  assume "fc \<in> set (fst (calculateFootprint rnd k candles N))" and lvl: "lvl \<in> set (levels fc)"
  then obtain j where j: "j < length (filter wide candles)"
    and fc: "fc = fst (footprint_loop rnd N k candles) ! j"
    using footprint_loop_shape [of rnd N k candles]
    by (auto simp: calculateFootprint_def in_set_conv_nth)
  define c where "c = filter wide candles ! j"
  from j have "c \<in> set (filter wide candles)"
    unfolding c_def by (rule nth_mem)
  then have c: "wide c" "0 \<le> volume c"
    using assms(1) by simp_all
  from footprint_loop_nth [OF j, of rnd N k]
  have "levels fc = map (\<lambda>i. footprint_level c N i (rnd (k + j * N + i))) [0..<N]"
    by (simp add: fc c_def)
  with lvl obtain i where "i < N" and "lvl = footprint_level c N i (rnd (k + j * N + i))"
    by auto
  then show "imbalance lvl = Neutral"
    using footprint_level_neutral [OF c(1) _ c(2)] assms(2) by simp
qed

theorem calculateFootprint_neutral_witness:
  "0 \<le> volume wide_bar \<and> (\<forall>n. 0 \<le> first_zero n \<and> first_zero n < 1) \<and>
   length (fst (calculateFootprint first_zero 0 [wide_bar] 2)) = 1 \<and>
   length (levels (fst (calculateFootprint first_zero 0 [wide_bar] 2) ! 0)) = 2 \<and>
   imbalance (levels (fst (calculateFootprint first_zero 0 [wide_bar] 2) ! 0) ! 0) = Neutral \<and>
   imbalance (levels (fst (calculateFootprint first_zero 0 [wide_bar] 2) ! 0) ! 1) = Neutral"
proof -
  have h1: "\<forall>c \<in> set [wide_bar]. 0 \<le> volume c"
    by (simp add: wide_bar_def candle_def)
  have h2: "\<forall>n. 0 \<le> first_zero n \<and> first_zero n < 1"
    by (simp add: first_zero_def)
  have "wide wide_bar"
    by (simp add: wide_bar_def candle_def)
  then have w: "filter wide [wide_bar] = [wide_bar]"
    by simp
  have n: "length (fst (calculateFootprint first_zero 0 [wide_bar] 2)) = 1"
    using footprint_loop_shape [of first_zero 2 0 "[wide_bar]", unfolded w]
    by (simp add: calculateFootprint_def del: footprint_loop.simps)
  have l: "length (levels (fst (calculateFootprint first_zero 0 [wide_bar] 2) ! 0)) = 2"
    using footprint_loop_nth [of 0 "[wide_bar]" first_zero 2 0, unfolded w]
    by (simp add: calculateFootprint_def del: footprint_loop.simps)
  from n have fc: "fst (calculateFootprint first_zero 0 [wide_bar] 2) ! 0
                     \<in> set (fst (calculateFootprint first_zero 0 [wide_bar] 2))"
    by simp
  from l have "levels (fst (calculateFootprint first_zero 0 [wide_bar] 2) ! 0) ! 0
                 \<in> set (levels (fst (calculateFootprint first_zero 0 [wide_bar] 2) ! 0))"
    and "levels (fst (calculateFootprint first_zero 0 [wide_bar] 2) ! 0) ! 1
                 \<in> set (levels (fst (calculateFootprint first_zero 0 [wide_bar] 2) ! 0))"
    by simp_all
  with calculateFootprint_neutral [OF h1 h2, of 0 2] fc
  have "imbalance (levels (fst (calculateFootprint first_zero 0 [wide_bar] 2) ! 0) ! 0) = Neutral \<and>
        imbalance (levels (fst (calculateFootprint first_zero 0 [wide_bar] 2) ! 0) ! 1) = Neutral"
    by blast
  with h1 h2 n l show ?thesis by simp
qed

end
